theory Spec2Isabelle
  imports Complex_Main "HOL-Library.Word" "HOL-Library.Sublist"
begin

section \<open>Bytes, exceptions and Python primitives\<close>

type_synonym byte = "8 word"
type_synonym bytes = "byte list"

text \<open>The exceptions the modelled code paths can raise; the payload is the message.\<close>

datatype exn =
    RuntimeError string
  | TypeError string
  | ValueError string
  | BinasciiError string
  | KeyError string
  | StructError
  | InvalidTag
  | JSONDecodeError
  | ConnectionClosed

text \<open>Python's \<^verbatim>\<open>xs[:n]\<close>: a negative bound counts from the end and is clamped at 0.\<close>

definition slice_to :: "'a list \<Rightarrow> int \<Rightarrow> 'a list" where
  "slice_to xs n = (if 0 \<le> n then take (nat n) xs else take (nat (int (length xs) + n)) xs)"

text \<open>Python's \<^verbatim>\<open>bytes([i])\<close>: a single byte, or ValueError outside \<open>range(256)\<close>.\<close>

definition bytes_of_int :: "int \<Rightarrow> exn + bytes" where
  "bytes_of_int i =
     (if 0 \<le> i \<and> i < 256 then Inr [word_of_int i]
      else Inl (ValueError ''bytes must be in range(0, 256)''))"

section \<open>Key derivation: \<^verbatim>\<open>hkdf_sha256\<close>\<close>

text \<open>
  \<^verbatim>\<open>hmac.new(key, msg, hashlib.sha256).digest()\<close> belongs to the standard library; the
  derivation takes it as the parameter \<open>hmac key msg\<close>. The loop
  \<^verbatim>\<open>while len(okm) < length\<close> is \<open>hkdf_loop\<close>, with the loop variables \<open>okm\<close>, \<open>t\<close>
  and \<open>block_index\<close> as arguments. It ends at the latest when
  \<^verbatim>\<open>bytes([block_index])\<close> raises at block 256, which is the measure of termination.
\<close>

type_synonym mac = "bytes \<Rightarrow> bytes \<Rightarrow> bytes"

function hkdf_loop :: "mac \<Rightarrow> bytes \<Rightarrow> bytes \<Rightarrow> int \<Rightarrow> bytes \<Rightarrow> bytes \<Rightarrow> int \<Rightarrow> exn + bytes" where
  "hkdf_loop hmac prk info len okm t block_index =
     (if int (length okm) < len then
        (case bytes_of_int block_index of
           Inl e \<Rightarrow> Inl e
         | Inr b \<Rightarrow>
             (let t' = hmac prk (t @ info @ b)
              in hkdf_loop hmac prk info len (okm @ t') t' (block_index + 1)))
      else Inr (slice_to okm len))"
  by pat_completeness auto
termination
  by (relation "measure (\<lambda>(hmac, prk, info, len, okm, t, block_index). nat (256 - block_index))")
     (auto simp: bytes_of_int_def split: if_splits)

declare hkdf_loop.simps [simp del]

definition hkdf_sha256 :: "mac \<Rightarrow> bytes \<Rightarrow> bytes \<Rightarrow> bytes \<Rightarrow> int \<Rightarrow> exn + bytes" where
  "hkdf_sha256 hmac ikm salt info len =
     (let prk = hmac salt ikm in hkdf_loop hmac prk info len [] [] 1)"

text \<open>
  The construction in the specification's words: \<open>T(0)\<close> is empty,
  \<open>T(i) = HMAC(prk, T(i-1) || info || byte(i))\<close>, and the output keying material after
  \<open>n\<close> rounds is \<open>T(1) || ... || T(n)\<close>.
\<close>

fun spec_T :: "mac \<Rightarrow> bytes \<Rightarrow> bytes \<Rightarrow> nat \<Rightarrow> bytes" where
  "spec_T hmac prk info 0 = []"
| "spec_T hmac prk info (Suc i) = hmac prk (spec_T hmac prk info i @ info @ [of_nat (Suc i)])"

definition spec_okm :: "mac \<Rightarrow> bytes \<Rightarrow> bytes \<Rightarrow> nat \<Rightarrow> bytes" where
  "spec_okm hmac prk info n = concat (map (spec_T hmac prk info) [1..<Suc n])"

text \<open>
  A concrete keyed function with 32-byte output, at which the statements that are
  parametric in the MAC are instantiated and evaluated.
\<close>

definition sample_mac :: mac where
  "sample_mac key msg = take 32 (msg @ key @ replicate 32 0)"

section \<open>Tolerant base64 decoding: \<^verbatim>\<open>safe_b64decode\<close>\<close>

text \<open>
  A \<open>string\<close> stands for a Python \<^verbatim>\<open>str\<close> whose code points are below 256. The
  whitespace that \<^verbatim>\<open>str.strip()\<close> removes is, in that range, TAB, LF, VT, FF, CR, the
  separators 0x1C to 0x1F, the space, NEL (0x85) and the no-break space (0xA0).
\<close>

definition py_isspace :: "char \<Rightarrow> bool" where
  "py_isspace c =
     (let n = (of_char c :: nat)
      in (9 \<le> n \<and> n \<le> 13) \<or> (28 \<le> n \<and> n \<le> 32) \<or> n = 133 \<or> n = 160)"

definition lstrip :: "string \<Rightarrow> string" where
  "lstrip s = dropWhile py_isspace s"

fun rstrip :: "string \<Rightarrow> string" where
  "rstrip [] = []"
| "rstrip (c # cs) = (if rstrip cs = [] \<and> py_isspace c then [] else c # rstrip cs)"

definition strip :: "string \<Rightarrow> string" where
  "strip s = rstrip (lstrip s)"

text \<open>
  \<^verbatim>\<open>str.replace(old, new)\<close>: the occurrences of \<open>old\<close> are found from the left and do
  not overlap. An empty \<open>old\<close> matches before every character and at the end.
\<close>

fun replace_scan :: "string \<Rightarrow> string \<Rightarrow> string \<Rightarrow> string" where
  "replace_scan old new [] = []"
| "replace_scan old new (c # cs) =
     (if old \<noteq> [] \<and> prefix old (c # cs)
      then new @ replace_scan old new (drop (length old - 1) cs)
      else c # replace_scan old new cs)"

definition py_replace :: "string \<Rightarrow> string \<Rightarrow> string \<Rightarrow> string" where
  "py_replace old new s =
     (if old = [] then new @ concat (map (\<lambda>c. c # new) s) else replace_scan old new s)"

text \<open>The backslash, which a string literal cannot hold, and the five escapes.\<close>

abbreviation backslash :: char where
  "backslash \<equiv> CHR 0x5C"

text \<open>
  \<^verbatim>\<open>base64.b64decode(t)\<close> is the standard library's; \<open>safe_b64decode\<close> takes it as the
  parameter \<open>decode\<close>. The \<^verbatim>\<open>isinstance\<close> test cannot fail on a \<open>string\<close>.
\<close>

definition safe_b64decode :: "(string \<Rightarrow> exn + bytes) \<Rightarrow> string \<Rightarrow> exn + bytes" where
  "safe_b64decode decode s =
     (let t = py_replace (backslash # ''u002F'') ''/''
                (py_replace (backslash # ''u002f'') ''/''
                  (py_replace (backslash # ''u003D'') ''=''
                    (py_replace (backslash # ''u003d'') ''=''
                      (py_replace (backslash # ''u002B'') ''+'' (strip s)))));
          t = py_replace [CHR 0x0D] '''' (py_replace [CHR 0x0A] '''' (py_replace '' '' '''' t));
          t = py_replace ''_'' ''/'' (py_replace ''-'' ''+'' t);
          m = length t mod 4;
          t = (if m \<noteq> 0 then t @ replicate (4 - m) (CHR ''='') else t)
      in decode t)"

text \<open>
  The library decoder as CPython implements it (\<^verbatim>\<open>binascii.a2b_base64\<close>, not strict):
  a string with a non-ASCII character is refused; characters outside the alphabet are
  skipped; a pad ends the input once it completes a quad of which two or three
  characters were data; data left over in an incomplete quad is an error.
\<close>

definition b64_index :: "char \<Rightarrow> nat option" where
  "b64_index c =
     (let n = (of_char c :: nat)
      in if 65 \<le> n \<and> n \<le> 90 then Some (n - 65)
         else if 97 \<le> n \<and> n \<le> 122 then Some (n - 71)
         else if 48 \<le> n \<and> n \<le> 57 then Some (n + 4)
         else if c = CHR ''+'' then Some 62
         else if c = CHR ''/'' then Some 63
         else None)"

fun a2b_base64 :: "string \<Rightarrow> nat \<Rightarrow> nat \<Rightarrow> nat \<Rightarrow> bytes \<Rightarrow> exn + bytes" where
  "a2b_base64 [] quad_pos leftchar pads out =
     (if quad_pos \<noteq> 0 then
        (if quad_pos = 1 then Inl (BinasciiError ''Invalid base64-encoded string'')
         else Inl (BinasciiError ''Incorrect padding''))
      else Inr out)"
| "a2b_base64 (c # cs) quad_pos leftchar pads out =
     (if c = CHR ''='' then
        (if 2 \<le> quad_pos then
           (if 4 \<le> quad_pos + (pads + 1) then Inr out
            else a2b_base64 cs quad_pos leftchar (pads + 1) out)
         else a2b_base64 cs quad_pos leftchar pads out)
      else
        (case b64_index c of
           None \<Rightarrow> a2b_base64 cs quad_pos leftchar pads out
         | Some v \<Rightarrow>
             (if quad_pos = 0 then a2b_base64 cs 1 v 0 out
              else if quad_pos = 1 then
                a2b_base64 cs 2 (v mod 16) 0 (out @ [of_nat (leftchar * 4 + v div 16)])
              else if quad_pos = 2 then
                a2b_base64 cs 3 (v mod 4) 0 (out @ [of_nat (leftchar * 16 + v div 4)])
              else a2b_base64 cs 0 0 0 (out @ [of_nat (leftchar * 64 + v)]))))"

definition b64decode :: "string \<Rightarrow> exn + bytes" where
  "b64decode s =
     (if list_ex (\<lambda>c. 128 \<le> (of_char c :: nat)) s
      then Inl (ValueError ''string argument should contain only ASCII characters'')
      else a2b_base64 s 0 0 0 [])"

text \<open>
  The text \<open>t\<close> of \<open>safe_b64decode\<close> after its ten replacements, before the padding
  is restored.
\<close>

definition normal_text :: "string \<Rightarrow> string" where
  "normal_text s =
     py_replace ''_'' ''/'' (py_replace ''-'' ''+''
       (py_replace [CHR 0x0D] '''' (py_replace [CHR 0x0A] '''' (py_replace '' '' ''''
         (py_replace (backslash # ''u002F'') ''/''
           (py_replace (backslash # ''u002f'') ''/''
             (py_replace (backslash # ''u003D'') ''=''
               (py_replace (backslash # ''u003d'') ''=''
                 (py_replace (backslash # ''u002B'') ''+'' s)))))))))"

text \<open>
  The ways of writing a base64 text that the decoder is meant to accept. A canonical
  text is data characters of the standard alphabet followed by at most two pads, a
  multiple of four characters in all. It is written as a sequence of pieces: a
  character in one of its spellings (itself, the URL-safe character, a JSON escape),
  an embedded space, line feed or carriage return, or a pad that is left out.
\<close>

definition b64_alphabet :: "char \<Rightarrow> bool" where
  "b64_alphabet c = (b64_index c \<noteq> None)"











section \<open>Frames and the receive loops\<close>

text \<open>Decimal text of an integer, as \<^verbatim>\<open>str(n)\<close> and the formats \<^verbatim>\<open>%d\<close>, \<^verbatim>\<open>{n}\<close> print it.\<close>

fun str_nat :: "nat \<Rightarrow> string" where
  "str_nat n =
     (if n < 10 then [char_of (48 + n)] else str_nat (n div 10) @ [char_of (48 + n mod 10)])"

declare str_nat.simps [simp del]

definition str_int :: "int \<Rightarrow> string" where
  "str_int i = (if i < 0 then CHR ''-'' # str_nat (nat (- i)) else str_nat (nat i))"

text \<open>
  \<^verbatim>\<open>be_u64(b) = struct.unpack(">Q", b)[0]\<close>: the big-endian value of exactly eight bytes.
\<close>

definition be_u64 :: "bytes \<Rightarrow> exn + nat" where
  "be_u64 b =
     (if length b = 8 then Inr (foldl (\<lambda>acc x. acc * 256 + unat x) 0 b) else Inl StructError)"

definition join_ct_tag :: "bytes \<Rightarrow> bytes \<Rightarrow> bytes" where
  "join_ct_tag ct tag = ct @ tag"

text \<open>
  \<^verbatim>\<open>AESGCM(key).decrypt(nonce, data, aad)\<close> belongs to the cryptography library; the
  loops take it as the parameter \<open>decrypt key nonce data aad\<close>, which is \<open>None\<close> where the
  library raises \<^verbatim>\<open>InvalidTag\<close>.
\<close>

type_synonym aead = "bytes \<Rightarrow> bytes \<Rightarrow> bytes \<Rightarrow> bytes \<Rightarrow> bytes option"

text \<open>What the handshake leaves for the receive loop.\<close>

record session =
  conn_id :: bytes
  session_key :: bytes
  aad :: bytes

datatype ws_msg = Text string | Binary bytes

text \<open>
  What a connection does besides raising: log lines, calls of the AEAD decryption (with
  nonce, data and associated data), chunks yielded to the consumer, and the start
  message sent to the server (with its \<open>conn\<close> and \<open>exp\<close> fields).
\<close>

datatype log_level = Debug | Info | Warning | Error

datatype event =
    Log log_level string
  | Decrypt bytes bytes bytes
  | Yield bytes
  | SendStart string int

subsection \<open>\<^verbatim>\<open>stream_downloader.py\<close>: the loop of \<^verbatim>\<open>iter_plain_chunks\<close>\<close>

text \<open>
  One pass through the body of \<^verbatim>\<open>while True\<close> for the message that \<^verbatim>\<open>ws.recv()\<close>
  returned: the events of the pass, and either the exception it raises or the value of
  \<open>last_counter\<close> for the next pass.
\<close>

definition iter_step :: "aead \<Rightarrow> session \<Rightarrow> nat \<Rightarrow> ws_msg \<Rightarrow> event list \<times> (exn + nat)" where
  "iter_step decrypt s last_counter msg =
     (case msg of
        Text txt \<Rightarrow> ([Log Debug (''[text] '' @ txt)], Inr last_counter)
      | Binary buf \<Rightarrow>
          if length buf < 28 then
            ([Log Warning (''short frame: len='' @ str_nat (length buf))], Inr last_counter)
          else
            let nonce = take 12 buf; tag = take 16 (drop 12 buf); ct = drop 28 buf in
            if take 4 nonce \<noteq> conn_id s then ([], Inl (RuntimeError ''nonce connId mismatch''))
            else
              (case be_u64 (take 8 (drop 4 nonce)) of
                 Inl e \<Rightarrow> ([], Inl e)
               | Inr counter \<Rightarrow>
                   if counter \<le> last_counter then
                     ([], Inl (RuntimeError (''counter not increasing ('' @ str_nat counter
                                              @ '' <= '' @ str_nat last_counter @ '')'')))
                   else
                     (case decrypt (session_key s) nonce (join_ct_tag ct tag) (aad s) of
                        None \<Rightarrow>
                          ([Decrypt nonce (join_ct_tag ct tag) (aad s), Log Error ''decrypt error''],
                           Inl InvalidTag)
                      | Some plain \<Rightarrow>
                          ([Decrypt nonce (join_ct_tag ct tag) (aad s), Yield plain],
                           Inr counter))))"

text \<open>
  The loop over the messages the connection delivers; when these are used up
  \<^verbatim>\<open>ws.recv()\<close> raises \<^verbatim>\<open>ConnectionClosed\<close>. The loop has no other exit than an exception.
\<close>

fun iter_loop :: "aead \<Rightarrow> session \<Rightarrow> nat \<Rightarrow> ws_msg list \<Rightarrow> event list \<times> exn" where
  "iter_loop decrypt s last_counter [] = ([], ConnectionClosed)"
| "iter_loop decrypt s last_counter (msg # msgs) =
     (case iter_step decrypt s last_counter msg of
        (ev, Inl e) \<Rightarrow> (ev, e)
      | (ev, Inr last_counter') \<Rightarrow>
          (case iter_loop decrypt s last_counter' msgs of (ev', e) \<Rightarrow> (ev @ ev', e)))"

subsection \<open>\<^verbatim>\<open>tinycam.py\<close>: the loop of \<^verbatim>\<open>get_chunks\<close>\<close>

text \<open>
  The loop variables that change: the time of the last reception and the flag of the
  first binary frame. Each message comes with the reading \<open>now\<close> of the monotonic clock
  taken right after it is received.
\<close>

record rx_state =
  last_rx_ts :: real
  first_bin_seen :: bool

definition get_chunks_step ::
    "aead \<Rightarrow> session \<Rightarrow> real \<Rightarrow> rx_state \<Rightarrow> real \<times> ws_msg \<Rightarrow> event list \<times> (exn + rx_state)" where
  "get_chunks_step decrypt s first_bin_deadline st rx =
     (case rx of (now, msg) \<Rightarrow>
        let st = st\<lparr>last_rx_ts := now\<rparr> in
        (case msg of
           Text txt \<Rightarrow> ([Log Debug (''[text] '' @ txt)], Inr st)
         | Binary buf \<Rightarrow>
             if length buf < 28 then
               ([Log Warning (''short frame: len='' @ str_nat (length buf))], Inr st)
             else
               let nonce = take 12 buf; tag = take 16 (drop 12 buf); ct = drop 28 buf in
               if take 4 nonce \<noteq> conn_id s then ([], Inl (RuntimeError ''nonce connId mismatch''))
               else
                 (case be_u64 (take 8 (drop 4 nonce)) of
                    Inl e \<Rightarrow> ([], Inl e)
                  | Inr counter \<Rightarrow>
                      (case decrypt (session_key s) nonce (join_ct_tag ct tag) (aad s) of
                         None \<Rightarrow>
                           ([Decrypt nonce (join_ct_tag ct tag) (aad s), Log Error ''decrypt error''],
                            Inl InvalidTag)
                       | Some plain \<Rightarrow>
                           let st = (if \<not> first_bin_seen st then st\<lparr>first_bin_seen := True\<rparr> else st)
                           in if \<not> first_bin_seen st \<and> now > first_bin_deadline then
                                ([Decrypt nonce (join_ct_tag ct tag) (aad s), Yield plain],
                                 Inl (RuntimeError ''first binary frame timeout''))
                              else
                                ([Decrypt nonce (join_ct_tag ct tag) (aad s), Yield plain],
                                 Inr st)))))"

fun get_chunks_loop ::
    "aead \<Rightarrow> session \<Rightarrow> real \<Rightarrow> rx_state \<Rightarrow> (real \<times> ws_msg) list \<Rightarrow> event list \<times> exn" where
  "get_chunks_loop decrypt s first_bin_deadline st [] = ([], ConnectionClosed)"
| "get_chunks_loop decrypt s first_bin_deadline st (rx # rxs) =
     (case get_chunks_step decrypt s first_bin_deadline st rx of
        (ev, Inl e) \<Rightarrow> (ev, e)
      | (ev, Inr st') \<Rightarrow>
          (case get_chunks_loop decrypt s first_bin_deadline st' rxs of (ev', e) \<Rightarrow> (ev @ ev', e)))"

section \<open>The handshake\<close>

text \<open>
  The hello message after \<^verbatim>\<open>json.loads\<close>: a JSON object, of which the code reads these
  keys. A key that is absent is \<open>None\<close>; the numeric fields are JSON integers.
\<close>

record hello =
  h_type :: "string option"
  h_snonce :: "string option"
  h_conn :: "string option"
  h_codec :: "string option"
  h_w :: "int option"
  h_h :: "int option"
  h_fps :: "int option"
  h_exp :: "int option"

text \<open>
  What the first \<^verbatim>\<open>ws.recv()\<close> gives: a binary message, a text that decodes to a JSON
  object, a text that \<^verbatim>\<open>json.loads\<close> refuses, or the end of the connection.
\<close>

datatype first_msg = FirstBinary bytes | FirstJson hello | FirstBadText | FirstClosed

text \<open>\<^verbatim>\<open>d[key]\<close> on the hello, and the sequencing of steps that may raise.\<close>

definition item :: "'a option \<Rightarrow> string \<Rightarrow> exn + 'a" where
  "item v key = (case v of None \<Rightarrow> Inl (KeyError key) | Some x \<Rightarrow> Inr x)"

definition and_then :: "exn + 'a \<Rightarrow> ('a \<Rightarrow> exn + 'b) \<Rightarrow> exn + 'b" where
  "and_then r f = (case r of Inl e \<Rightarrow> Inl e | Inr x \<Rightarrow> f x)"

text \<open>\<^verbatim>\<open>str.encode("utf-8")\<close> for code points below 256.\<close>

definition utf8 :: "string \<Rightarrow> bytes" where
  "utf8 s =
     concat (map (\<lambda>c. let n = (of_char c :: nat)
                       in if n < 128 then [of_nat n] else [of_nat (192 + n div 64), of_nat (128 + n mod 64)]) s)"

text \<open>
  The fields read from the hello, in the order of the source, which both files share
  word for word: \<open>server_nonce\<close>, \<open>conn_b64\<close>, \<open>conn_id\<close>, \<open>codec\<close>, \<open>w\<close>, \<open>h\<close>, \<open>fps\<close>,
  \<open>exp_srv\<close>.
\<close>

record hello_fields =
  hf_server_nonce :: bytes
  hf_conn_b64 :: string
  hf_conn_id :: bytes
  hf_codec :: string
  hf_w :: int
  hf_h :: int
  hf_fps :: int
  hf_exp_srv :: int

definition read_hello :: "(string \<Rightarrow> exn + bytes) \<Rightarrow> string \<Rightarrow> hello \<Rightarrow> exn + hello_fields" where
  "read_hello decode codec_hint hello =
     and_then (item (h_snonce hello) ''snonce'') (\<lambda>snonce.
     and_then (safe_b64decode decode snonce) (\<lambda>server_nonce.
     and_then (item (h_conn hello) ''conn'') (\<lambda>conn_b64.
     and_then (safe_b64decode decode conn_b64) (\<lambda>conn_id.
     let codec = (case h_codec hello of None \<Rightarrow> codec_hint | Some c \<Rightarrow> c) in
     and_then (item (h_w hello) ''w'') (\<lambda>w.
     and_then (item (h_h hello) ''h'') (\<lambda>h.
     and_then (item (h_fps hello) ''fps'') (\<lambda>fps.
     and_then (item (h_exp hello) ''exp'') (\<lambda>exp_srv.
     Inr \<lparr>hf_server_nonce = server_nonce, hf_conn_b64 = conn_b64, hf_conn_id = conn_id,
          hf_codec = codec, hf_w = w, hf_h = h, hf_fps = fps, hf_exp_srv = exp_srv\<rparr>))))))))"

text \<open>The session key and the associated data, as both files compute them.\<close>

definition hkdf_info :: bytes where
  "hkdf_info = utf8 ''tinycam hkdf v1''"

definition make_aad :: "string \<Rightarrow> int \<Rightarrow> string \<Rightarrow> int \<Rightarrow> int \<Rightarrow> int \<Rightarrow> bytes" where
  "make_aad conn_b64 exp_req codec w h fps =
     utf8 (conn_b64 @ ''|'' @ str_int exp_req @ ''|'' @ codec @ ''|'' @ str_int w @ ''x'' @ str_int h
           @ ''|'' @ str_int fps)"

text \<open>
  \<^verbatim>\<open>get_chunks\<close> of \<^verbatim>\<open>tinycam.py\<close> up to its receive loop. \<open>exp_req\<close> is the client's \<open>exp\<close>,
  \<^verbatim>\<open>int(time.time()) + 60\<close> (renamed, \<open>exp\<close> being the exponential function), \<open>client_nonce\<close> its \<^verbatim>\<open>os.urandom(16)\<close>, and \<open>first\<close> what the
  wait for the hello gave, \<open>None\<close> when \<^verbatim>\<open>asyncio.wait_for\<close> timed out. The token of
  the URL is computed from the same key text and raises nothing that decoding the
  access key has not raised.
\<close>

definition get_chunks_handshake ::
    "mac \<Rightarrow> (string \<Rightarrow> exn + bytes) \<Rightarrow> string \<Rightarrow> string \<Rightarrow> int \<Rightarrow> bytes \<Rightarrow> first_msg option
      \<Rightarrow> event list \<times> (exn + session)" where
  "get_chunks_handshake hmac decode access_key_b64 codec_hint exp_req client_nonce first =
     (case safe_b64decode decode access_key_b64 of
        Inl e \<Rightarrow> ([], Inl e)
      | Inr access_key \<Rightarrow>
          (case first of
             None \<Rightarrow> ([], Inl (RuntimeError ''hello timeout''))
           | Some FirstClosed \<Rightarrow> ([], Inl ConnectionClosed)
           | Some (FirstBinary b) \<Rightarrow> ([], Inl (RuntimeError ''expected hello text frame, got binary''))
           | Some FirstBadText \<Rightarrow> ([], Inl JSONDecodeError)
           | Some (FirstJson hello) \<Rightarrow>
               if h_type hello \<noteq> Some ''hello'' then ([], Inl (RuntimeError ''unexpected hello''))
               else
                 (case read_hello decode codec_hint hello of
                    Inl e \<Rightarrow> ([], Inl e)
                  | Inr f \<Rightarrow>
                      let warn = (if hf_exp_srv f \<noteq> exp_req
                                  then [Log Warning (''server exp mismatch: '' @ str_int (hf_exp_srv f)
                                                     @ '' != '' @ str_int exp_req)]
                                  else []);
                          sent = [SendStart (hf_conn_b64 f) (hf_exp_srv f), Log Info ''[start] sent''];
                          salt = client_nonce @ hf_server_nonce f
                      in (case hkdf_sha256 hmac access_key salt hkdf_info 32 of
                            Inl e \<Rightarrow> (warn @ sent, Inl e)
                          | Inr key \<Rightarrow>
                              (warn @ sent,
                               Inr \<lparr>conn_id = hf_conn_id f, session_key = key,
                                    aad = make_aad (hf_conn_b64 f) exp_req (hf_codec f) (hf_w f) (hf_h f) (hf_fps f)\<rparr>)))))"

text \<open>
  \<^verbatim>\<open>iter_plain_chunks\<close> of \<^verbatim>\<open>stream_downloader.py\<close> up to its receive loop: no timeout
  on the hello and no start message.
\<close>

definition iter_handshake ::
    "mac \<Rightarrow> (string \<Rightarrow> exn + bytes) \<Rightarrow> string \<Rightarrow> string \<Rightarrow> int \<Rightarrow> bytes \<Rightarrow> first_msg
      \<Rightarrow> event list \<times> (exn + session)" where
  "iter_handshake hmac decode access_key_b64 codec_hint exp_req client_nonce first =
     (case safe_b64decode decode access_key_b64 of
        Inl e \<Rightarrow> ([], Inl e)
      | Inr access_key \<Rightarrow>
          (case first of
             FirstClosed \<Rightarrow> ([], Inl ConnectionClosed)
           | FirstBinary b \<Rightarrow> ([], Inl (RuntimeError ''expected hello text frame, got binary''))
           | FirstBadText \<Rightarrow> ([], Inl JSONDecodeError)
           | FirstJson hello \<Rightarrow>
               if h_type hello \<noteq> Some ''hello'' then ([], Inl (RuntimeError ''unexpected hello''))
               else
                 (case read_hello decode codec_hint hello of
                    Inl e \<Rightarrow> ([], Inl e)
                  | Inr f \<Rightarrow>
                      let warn = (if hf_exp_srv f \<noteq> exp_req
                                  then [Log Warning (''server exp mismatch: '' @ str_int (hf_exp_srv f)
                                                     @ '' != '' @ str_int exp_req)]
                                  else []);
                          salt = client_nonce @ hf_server_nonce f
                      in (case hkdf_sha256 hmac access_key salt hkdf_info 32 of
                            Inl e \<Rightarrow> (warn, Inl e)
                          | Inr key \<Rightarrow>
                              (warn,
                               Inr \<lparr>conn_id = hf_conn_id f, session_key = key,
                                    aad = make_aad (hf_conn_b64 f) exp_req (hf_codec f) (hf_w f) (hf_h f) (hf_fps f)\<rparr>)))))"

text \<open>
  A whole connection: the handshake, then the receive loop. \<^verbatim>\<open>iter_plain_chunks\<close> starts
  its loop with \<^verbatim>\<open>last_counter = 0\<close>; \<^verbatim>\<open>get_chunks\<close> reads the clock (\<open>now0\<close>) for
  \<open>last_rx_ts\<close> and the deadline \<open>last_rx_ts + first_frame_timeout\<close>, and clears
  \<open>first_bin_seen\<close>. Its heartbeat and watchdog tasks run beside the loop and are not
  part of this model.
\<close>

definition iter_plain_chunks ::
    "mac \<Rightarrow> (string \<Rightarrow> exn + bytes) \<Rightarrow> aead \<Rightarrow> string \<Rightarrow> string \<Rightarrow> int \<Rightarrow> bytes \<Rightarrow> first_msg
      \<Rightarrow> ws_msg list \<Rightarrow> event list \<times> exn" where
  "iter_plain_chunks hmac decode decrypt access_key_b64 codec_hint exp_req client_nonce first msgs =
     (case iter_handshake hmac decode access_key_b64 codec_hint exp_req client_nonce first of
        (ev, Inl e) \<Rightarrow> (ev, e)
      | (ev, Inr s) \<Rightarrow>
          (case iter_loop decrypt s 0 msgs of (ev', e) \<Rightarrow> (ev @ ev', e)))"

definition get_chunks ::
    "mac \<Rightarrow> (string \<Rightarrow> exn + bytes) \<Rightarrow> aead \<Rightarrow> string \<Rightarrow> string \<Rightarrow> real \<Rightarrow> int \<Rightarrow> bytes
      \<Rightarrow> first_msg option \<Rightarrow> real \<Rightarrow> (real \<times> ws_msg) list \<Rightarrow> event list \<times> exn" where
  "get_chunks hmac decode decrypt access_key_b64 codec_hint first_frame_timeout exp_req client_nonce
      first now0 rxs =
     (case get_chunks_handshake hmac decode access_key_b64 codec_hint exp_req client_nonce first of
        (ev, Inl e) \<Rightarrow> (ev, e)
      | (ev, Inr s) \<Rightarrow>
          (case get_chunks_loop decrypt s (now0 + first_frame_timeout)
                  \<lparr>last_rx_ts = now0, first_bin_seen = False\<rparr> rxs of
             (ev', e) \<Rightarrow> (ev @ ev', e)))"

section \<open>The reconnect loop of \<^verbatim>\<open>main_async\<close>\<close>

text \<open>
  How one \<^verbatim>\<open>stream_to_file\<close> attempt ends, as the loop sees it: it returns, or it raises
  an exception that one of the two \<^verbatim>\<open>except\<close> clauses catches. \<open>chunks\<close> are the
  decrypted chunks the attempt wrote before it ended. Both files have the same loop.
\<close>

datatype attempt_end = Returned | Raised exn

record attempt =
  chunks :: "bytes list"
  ended :: attempt_end

text \<open>
  \<^verbatim>\<open>stream_to_file\<close> writes each chunk the generator yields and ends when the generator
  ends. A run of \<^verbatim>\<open>get_chunks\<close> or \<^verbatim>\<open>iter_plain_chunks\<close> ends only with an exception
  (their \<^verbatim>\<open>while True\<close> loops have no \<^verbatim>\<open>break\<close> or \<^verbatim>\<open>return\<close>, and \<^verbatim>\<open>ws.recv()\<close> raises when
  the connection closes), which leaves \<^verbatim>\<open>stream_to_file\<close> before its last line is reached.
\<close>

definition stream_to_file :: "event list \<times> exn \<Rightarrow> attempt" where
  "stream_to_file run =
     (case run of
        (ev, e) \<Rightarrow>
          \<lparr>chunks = concat (map (\<lambda>x. case x of Yield plain \<Rightarrow> [plain] | _ \<Rightarrow> []) ev),
           ended = Raised e\<rparr>)"

text \<open>
  The loop runs until the process is interrupted; \<open>main_loop\<close> runs it over the attempts
  made so far and gives the sleeps it has asked for and the value of \<open>backoff\<close>.
\<close>

fun main_loop :: "real \<Rightarrow> attempt list \<Rightarrow> real list \<times> real" where
  "main_loop backoff [] = ([], backoff)"
| "main_loop backoff (a # as) =
     (let backoff = (case ended a of Returned \<Rightarrow> 1 | Raised e \<Rightarrow> backoff);
          slept = min backoff 10;
          backoff = min (backoff * 2) 10
      in case main_loop backoff as of (sleeps, b) \<Rightarrow> (slept # sleeps, b))"

definition main_async :: "attempt list \<Rightarrow> real list \<times> real" where
  "main_async as = main_loop 1 as"

section \<open>A sample connection\<close>

text \<open>
  The scenario at which the statements about the handshake are evaluated: the access
  key \<open>AAAA\<close> (three zero bytes), a client nonce of 16 zero bytes, and a hello with a
  server nonce of 16 bytes 0x01, the connection id \<open>AAAAAA==\<close> (four zero bytes), the
  codec vp9, 1280 by 720 at 30 frames per second, and the value \<open>e\<close> for \<open>exp\<close>.
  \<open>sample_key\<close> is the session key that \<open>sample_mac\<close> derives for it.
\<close>

definition sample_key :: bytes where
  "sample_key = [116, 105, 110, 121, 99, 97, 109, 32, 104, 107, 100, 102, 32, 118, 49, 1] @ replicate 16 0"

definition sample_hello :: "int \<Rightarrow> hello" where
  "sample_hello e = \<lparr>h_type = Some ''hello'', h_snonce = Some ''AQEBAQEBAQEBAQEBAQEBAQ=='',
     h_conn = Some ''AAAAAA=='', h_codec = Some ''vp9'', h_w = Some 1280, h_h = Some 720,
     h_fps = Some 30, h_exp = Some e\<rparr>"

text \<open>
  The session this handshake gives when the client asks for \<open>exp = 100\<close>, frames of
  this session with a counter below 256 and an all-zero tag, and a decryption under
  which every frame authenticates, its plaintext being its ciphertext.
\<close>

definition sample_session :: session where
  "sample_session =
     \<lparr>conn_id = [0, 0, 0, 0], session_key = sample_key,
      aad = utf8 ''AAAAAA==|100|vp9|1280x720|30''\<rparr>"

definition sample_nonce :: "nat \<Rightarrow> bytes" where
  "sample_nonce counter = [0, 0, 0, 0] @ [0, 0, 0, 0, 0, 0, 0, of_nat counter]"

definition sample_frame :: "nat \<Rightarrow> bytes \<Rightarrow> bytes" where
  "sample_frame counter ct = sample_nonce counter @ replicate 16 0 @ ct"

definition accept_all :: aead where
  "accept_all key nonce data a = Some (take (length data - 16) data)"

section \<open>Properties of the key derivation\<close>

lemma sample_mac_len: "\<forall>k m. length (sample_mac k m) = 32"
  by (simp add: sample_mac_def min_def)

lemma spec_okm_0: "spec_okm h prk info 0 = []"
  by (simp add: spec_okm_def)

lemma spec_okm_Suc:
  "spec_okm h prk info (Suc n) = spec_okm h prk info n @ spec_T h prk info (Suc n)"
  by (simp add: spec_okm_def)

lemma length_spec_okm:
  assumes "\<forall>k m. length (h k m) = 32"
  shows "length (spec_okm h prk info n) = 32 * n"
  using assms by (induction n) (simp_all add: spec_okm_0 spec_okm_Suc)

text \<open>One unfolding of the loop, with the \<open>let\<close> expanded.\<close>

lemma hkdf_loop_step:
  "hkdf_loop h prk info len okm t i =
     (if int (length okm) < len then
        (case bytes_of_int i of Inl e \<Rightarrow> Inl e
         | Inr b \<Rightarrow> hkdf_loop h prk info len (okm @ h prk (t @ info @ b)) (h prk (t @ info @ b)) (i + 1))
      else Inr (slice_to okm len))"
  by (subst hkdf_loop.simps) (simp add: Let_def split: sum.splits)

lemma bytes_of_int_block: "n < 255 \<Longrightarrow> bytes_of_int (int n + 1) = Inr [of_nat (Suc n)]"
  by (simp add: bytes_of_int_def add.commute)

text \<open>
  Loop invariant: entering round \<open>n + 1\<close> the variables hold \<open>T(1) || ... || T(n)\<close> and
  \<open>T(n)\<close>. With 32-byte blocks the loop leaves after \<open>N = ceil(len / 32)\<close> rounds, if
  that is at most 255.
\<close>

lemma hkdf_loop_blocks:
  assumes h32: "\<forall>k m. length (h k m) = 32"
    and N: "N = (nat L + 31) div 32" "N \<le> 255"
  shows "n \<le> N \<Longrightarrow>
         hkdf_loop h prk info L (spec_okm h prk info n) (spec_T h prk info n) (int n + 1)
           = Inr (take (nat L) (spec_okm h prk info N))"
proof (induction "N - n" arbitrary: n)
  case 0
  then have nN: "n = N" by simp
  have "\<not> int (length (spec_okm h prk info n)) < L"
    using N nN by (simp add: length_spec_okm [OF h32])
  moreover have "L < 0 \<Longrightarrow> spec_okm h prk info N = []"
    using N by (simp add: spec_okm_0)
  ultimately show ?case
    using nN by (subst hkdf_loop_step) (auto simp: slice_to_def)
next
  case (Suc d)
  then have lt: "n < N" by simp
  then have "int (length (spec_okm h prk info n)) < L"
    using N by (simp add: length_spec_okm [OF h32])
  moreover have "bytes_of_int (int n + 1) = Inr [of_nat (Suc n)]"
    using lt N by (intro bytes_of_int_block) simp
  moreover have "hkdf_loop h prk info L (spec_okm h prk info (Suc n)) (spec_T h prk info (Suc n))
                   (int (Suc n) + 1) = Inr (take (nat L) (spec_okm h prk info N))"
    using Suc lt by (intro Suc.hyps(1)) simp_all
  ultimately show ?case
    by (subst hkdf_loop_step) (simp add: spec_okm_Suc add.commute)
qed

text \<open>Beyond 255 blocks the 256th round cannot build its one-byte counter.\<close>

lemma hkdf_loop_too_long:
  assumes h32: "\<forall>k m. length (h k m) = 32" and L: "8160 < L"
  shows "n \<le> 255 \<Longrightarrow>
         hkdf_loop h prk info L (spec_okm h prk info n) (spec_T h prk info n) (int n + 1)
           = Inl (ValueError ''bytes must be in range(0, 256)'')"
proof (induction "255 - n" arbitrary: n)
  case 0
  then have n: "n = 255" by simp
  have "int (length (spec_okm h prk info n)) < L"
    using L n by (simp add: length_spec_okm [OF h32])
  then show ?case
    using n by (subst hkdf_loop_step) (simp add: bytes_of_int_def)
next
  case (Suc d)
  then have lt: "n < 255" by simp
  then have "int (length (spec_okm h prk info n)) < L"
    using L by (simp add: length_spec_okm [OF h32])
  moreover have "bytes_of_int (int n + 1) = Inr [of_nat (Suc n)]"
    using lt by (intro bytes_of_int_block) simp
  moreover have "hkdf_loop h prk info L (spec_okm h prk info (Suc n)) (spec_T h prk info (Suc n))
                   (int (Suc n) + 1) = Inl (ValueError ''bytes must be in range(0, 256)'')"
    using Suc lt by (intro Suc.hyps(1)) simp_all
  ultimately show ?case
    by (subst hkdf_loop_step) (simp add: spec_okm_Suc add.commute)
qed

lemma hkdf_sha256_too_long:
  assumes "\<forall>k m. length (h k m) = 32" and "8160 < L"
  shows "hkdf_sha256 h ikm salt info L = Inl (ValueError ''bytes must be in range(0, 256)'')"
  using hkdf_loop_too_long [OF assms, of 0 "h salt ikm" info]
  by (simp add: hkdf_sha256_def spec_okm_0)

text \<open>
  C3 (as amended). For a MAC with 32-byte output and a positive length of at most
  \<open>255 * 32 = 8160\<close>, the derivation returns the first \<open>len\<close> bytes of
  \<open>T(1) || ... || T(N)\<close> with \<open>prk = HMAC(salt, ikm)\<close>, where \<open>N = ceil(len / 32)\<close> is
  the first round count that yields enough bytes (\<open>N - 1\<close> rounds yield too few); the
  result has exactly \<open>len\<close> bytes, and more than 32 bytes take at least two rounds.
  Beyond 8160 bytes the call raises ValueError instead of returning.
\<close>

theorem hkdf_sha256_expand:
  assumes "\<forall>k m. length (hmac k m) = 32" and "0 < len"
  shows "(len \<le> 8160 \<longrightarrow>
            hkdf_sha256 hmac ikm salt info len =
              Inr (take (nat len) (spec_okm hmac (hmac salt ikm) info ((nat len + 31) div 32)))
          \<and> length (take (nat len) (spec_okm hmac (hmac salt ikm) info ((nat len + 31) div 32))) = nat len
          \<and> length (spec_okm hmac (hmac salt ikm) info ((nat len + 31) div 32 - 1)) < nat len
          \<and> (32 < len \<longrightarrow> 2 \<le> (nat len + 31) div 32))
       \<and> (8160 < len \<longrightarrow>
            hkdf_sha256 hmac ikm salt info len = Inl (ValueError ''bytes must be in range(0, 256)''))"
proof (intro conjI impI)
  assume le: "len \<le> 8160"
  then have N: "(nat len + 31) div 32 \<le> 255" by linarith
  show "hkdf_sha256 hmac ikm salt info len =
              Inr (take (nat len) (spec_okm hmac (hmac salt ikm) info ((nat len + 31) div 32)))"
    using hkdf_loop_blocks [OF assms(1) refl N, of 0 "hmac salt ikm" info]
    by (simp add: hkdf_sha256_def spec_okm_0)
  show "length (take (nat len) (spec_okm hmac (hmac salt ikm) info ((nat len + 31) div 32))) = nat len"
    by (simp add: length_spec_okm [OF assms(1)])
  show "length (spec_okm hmac (hmac salt ikm) info ((nat len + 31) div 32 - 1)) < nat len"
    using assms(2) by (simp add: length_spec_okm [OF assms(1)])
next
  assume "32 < len"
  then show "2 \<le> (nat len + 31) div 32" by linarith
next
  assume "8160 < len"
  then show "hkdf_sha256 hmac ikm salt info len = Inl (ValueError ''bytes must be in range(0, 256)'')"
    by (rule hkdf_sha256_too_long [OF assms(1)])
qed

theorem hkdf_sha256_expand_witness:
  "hkdf_sha256 sample_mac [1, 2] [3] [4] 40 =
     Inr ([4, 1, 1, 2, 3] @ replicate 27 0 @ [4, 1, 1, 2, 3, 0, 0, 0])
   \<and> hkdf_sha256 sample_mac [1, 2] [3] [4] 9000 = Inl (ValueError ''bytes must be in range(0, 256)'')"
proof -
  have blocks: "take 40 (spec_okm sample_mac (sample_mac [3] [1, 2]) [4] 2) =
      [4, 1, 1, 2, 3] @ replicate 27 0 @ [4, 1, 1, 2, 3, 0, 0, 0]"
    by code_simp
  show ?thesis
    using hkdf_sha256_expand [OF sample_mac_len, of 40 "[1, 2]" "[3]" "[4]"]
      hkdf_sha256_expand [OF sample_mac_len, of 9000 "[1, 2]" "[3]" "[4]"] blocks
    by simp
qed

text \<open>
  The claim as stated, for every positive length, fails at \<open>len = 8161\<close>: 255 rounds give
  8160 bytes and \<^verbatim>\<open>bytes([256])\<close> raises.
\<close>

theorem hkdf_sha256_length_counterexample:
  "(0::int) < 8161 \<and>
   hkdf_sha256 sample_mac [] [] [] 8161 = Inl (ValueError ''bytes must be in range(0, 256)'')"
  by (simp add: hkdf_sha256_too_long [OF sample_mac_len])

text \<open>Whatever the loop returns starts with the bytes it had collected.\<close>

lemma hkdf_loop_extends:
  "hkdf_loop h prk info L okm t i = Inr out \<Longrightarrow> 0 \<le> L \<Longrightarrow>
   \<exists>more. out = take (nat L) (okm @ more)"
proof (induction h prk info L okm t i rule: hkdf_loop.induct)
  case (1 h prk info L okm t i)
  show ?case
  proof (cases "int (length okm) < L")
    case False
    with "1.prems" have "out = take (nat L) (okm @ [])"
      by (subst (asm) hkdf_loop_step) (simp add: slice_to_def)
    then show ?thesis by blast
  next
    case True
    with "1.prems" obtain b where b: "bytes_of_int i = Inr b"
      and rec: "hkdf_loop h prk info L (okm @ h prk (t @ info @ b)) (h prk (t @ info @ b)) (i + 1) = Inr out"
      by (subst (asm) hkdf_loop_step) (auto split: sum.splits)
    from "1.IH" [OF True b refl rec "1.prems"(2)]
    obtain more where "out = take (nat L) ((okm @ h prk (t @ info @ b)) @ more)" by blast
    then have "out = take (nat L) (okm @ (h prk (t @ info @ b) @ more))" by simp
    then show ?thesis by blast
  qed
qed

lemma hkdf_loop_prefix:
  "hkdf_loop h prk info L2 okm t i = Inr out2 \<Longrightarrow> 0 \<le> L1 \<Longrightarrow> L1 \<le> L2 \<Longrightarrow>
   hkdf_loop h prk info L1 okm t i = Inr (take (nat L1) out2)"
proof (induction h prk info L2 okm t i rule: hkdf_loop.induct)
  case (1 h prk info L2 okm t i)
  from "1.prems" have L2: "0 \<le> L2" by simp
  from hkdf_loop_extends [OF "1.prems"(1) L2]
  obtain more where out2: "out2 = take (nat L2) (okm @ more)" by blast
  show ?case
  proof (cases "int (length okm) < L1")
    case False
    then have "take (nat L1) out2 = take (nat L1) okm"
      using "1.prems" by (simp add: out2 min_def)
    with False "1.prems" show ?thesis
      by (subst hkdf_loop_step) (simp add: slice_to_def)
  next
    case True
    with "1.prems" have lt2: "int (length okm) < L2" by simp
    with "1.prems" obtain b where b: "bytes_of_int i = Inr b"
      and rec: "hkdf_loop h prk info L2 (okm @ h prk (t @ info @ b)) (h prk (t @ info @ b)) (i + 1) = Inr out2"
      by (subst (asm) hkdf_loop_step) (auto split: sum.splits)
    from "1.IH" [OF lt2 b refl rec "1.prems"(2,3)] True b show ?thesis
      by (subst hkdf_loop_step) simp
  qed
qed

lemma hkdf_sha256_returns:
  assumes "\<forall>k m. length (h k m) = 32" and "L \<le> 8160"
  shows "\<exists>out. hkdf_sha256 h ikm salt info L = Inr out \<and> length out = nat L"
proof -
  from assms(2) have N: "(nat L + 31) div 32 \<le> 255" by linarith
  have "hkdf_sha256 h ikm salt info L =
          Inr (take (nat L) (spec_okm h (h salt ikm) info ((nat L + 31) div 32)))"
    using hkdf_loop_blocks [OF assms(1) refl N, of 0 "h salt ikm" info]
    by (simp add: hkdf_sha256_def spec_okm_0)
  moreover have "length (take (nat L) (spec_okm h (h salt ikm) info ((nat L + 31) div 32))) = nat L"
    by (simp add: length_spec_okm [OF assms(1)])
  ultimately show ?thesis by blast
qed

text \<open>
  C10 (as amended). For lengths \<open>0 \<le> L1 \<le> L2\<close> and any MAC: whenever the call for
  \<open>L2\<close> returns, the call for \<open>L1\<close> returns the first \<open>L1\<close> bytes of its output; with
  32-byte blocks the call for \<open>L2\<close> does return, \<open>L2\<close> bytes, as long as
  \<open>L2 \<le> 8160\<close>; and the output for length 0 is empty.
\<close>

theorem hkdf_sha256_prefix:
  assumes "0 \<le> L1" and "L1 \<le> L2"
  shows "(\<forall>out2. hkdf_sha256 hmac ikm salt info L2 = Inr out2 \<longrightarrow>
            hkdf_sha256 hmac ikm salt info L1 = Inr (take (nat L1) out2))
       \<and> ((\<forall>k m. length (hmac k m) = 32) \<and> L2 \<le> 8160 \<longrightarrow>
            (\<exists>out2. hkdf_sha256 hmac ikm salt info L2 = Inr out2 \<and> length out2 = nat L2))
       \<and> hkdf_sha256 hmac ikm salt info 0 = Inr []"
proof (intro conjI allI impI)
  fix out2
  assume "hkdf_sha256 hmac ikm salt info L2 = Inr out2"
  then show "hkdf_sha256 hmac ikm salt info L1 = Inr (take (nat L1) out2)"
    using assms by (simp add: hkdf_sha256_def hkdf_loop_prefix)
next
  assume "(\<forall>k m. length (hmac k m) = 32) \<and> L2 \<le> 8160"
  then show "\<exists>out2. hkdf_sha256 hmac ikm salt info L2 = Inr out2 \<and> length out2 = nat L2"
    by (simp add: hkdf_sha256_returns)
next
  show "hkdf_sha256 hmac ikm salt info 0 = Inr []"
    by (simp add: hkdf_sha256_def hkdf_loop_step slice_to_def)
qed

theorem hkdf_sha256_prefix_witness:
  "hkdf_sha256 sample_mac [9] [8, 7] [6] 40 =
     Inr ([6, 1, 9, 8, 7] @ replicate 27 0 @ [6, 1, 9, 8, 7, 0, 0, 0])
   \<and> hkdf_sha256 sample_mac [9] [8, 7] [6] 5 = Inr [6, 1, 9, 8, 7]
   \<and> hkdf_sha256 sample_mac [9] [8, 7] [6] 0 = Inr []"
proof -
  have long: "hkdf_sha256 sample_mac [9] [8, 7] [6] 40 =
     Inr ([6, 1, 9, 8, 7] @ replicate 27 0 @ [6, 1, 9, 8, 7, 0, 0, 0])"
    by code_simp
  show ?thesis
    using hkdf_sha256_prefix [of 5 40 sample_mac "[9]" "[8, 7]" "[6]"] long
    by simp
qed

text \<open>
  The claim as stated, for all lengths \<open>L1 \<le> L2\<close>, fails at \<open>L1 = 32\<close>, \<open>L2 = 8161\<close>:
  the shorter call returns 32 bytes and the longer one raises, so there is no output
  of which they could be a prefix.
\<close>

theorem hkdf_sha256_prefix_counterexample:
  "(32::int) \<le> 8161
   \<and> hkdf_sha256 sample_mac [1] [2] [3] 32 = Inr ([3, 1, 1, 2] @ replicate 28 0)
   \<and> hkdf_sha256 sample_mac [1] [2] [3] 8161 = Inl (ValueError ''bytes must be in range(0, 256)'')"
proof -
  have short: "hkdf_sha256 sample_mac [1] [2] [3] 32 = Inr ([3, 1, 1, 2] @ replicate 28 0)"
    by code_simp
  show ?thesis
    using short by (simp add: hkdf_sha256_too_long [OF sample_mac_len])
qed

section \<open>Properties of the tolerant base64 decoder\<close>

text \<open>How the ten replacements act on the first characters of a text.\<close>

lemma normal_text_Nil: "normal_text [] = []"
  by (simp add: normal_text_def py_replace_def)

lemma replace_scan_other:
  "c \<noteq> o1 \<Longrightarrow> replace_scan (o1 # os) new (c # s) = c # replace_scan (o1 # os) new s"
  by simp

lemma normal_text_plain:
  "c \<noteq> backslash \<Longrightarrow> c \<noteq> CHR '' '' \<Longrightarrow> c \<noteq> CHR 0x0A \<Longrightarrow> c \<noteq> CHR 0x0D \<Longrightarrow>
   c \<noteq> CHR ''-'' \<Longrightarrow> c \<noteq> CHR ''_'' \<Longrightarrow> normal_text (c # s) = c # normal_text s"
  by (simp add: normal_text_def py_replace_def replace_scan_other del: replace_scan.simps)




lemma b64_alphabet_code:
  "b64_alphabet c \<Longrightarrow>
     (65 \<le> (of_char c :: nat) \<and> (of_char c :: nat) \<le> 90) \<or>
     (97 \<le> (of_char c :: nat) \<and> (of_char c :: nat) \<le> 122) \<or>
     (48 \<le> (of_char c :: nat) \<and> (of_char c :: nat) \<le> 57) \<or> c = CHR ''+'' \<or> c = CHR ''/''"
  by (simp add: b64_alphabet_def b64_index_def Let_def split: if_splits)

lemma b64_alphabet_plain:
  assumes "b64_alphabet c \<or> c = CHR ''=''"
  shows "c \<noteq> backslash" "c \<noteq> CHR '' ''" "c \<noteq> CHR 0x0A" "c \<noteq> CHR 0x0D" "c \<noteq> CHR ''-''"
    "c \<noteq> CHR ''_''" "\<not> py_isspace c"
  using assms b64_alphabet_code [of c] by (auto simp: py_isspace_def Let_def)



lemma rstrip_append_nonspace:
  "list_all (\<lambda>x. \<not> py_isspace x) sp \<Longrightarrow> rstrip (sp @ s) = sp @ rstrip s"
  by (induction sp) simp_all











lemma safe_b64decode_normal_text:
  "safe_b64decode dec s =
     dec (let t = normal_text (strip s); m = length t mod 4
          in if m \<noteq> 0 then t @ replicate (4 - m) (CHR ''='') else t)"
  by (simp add: safe_b64decode_def normal_text_def Let_def)




text \<open>A text of alphabet characters and pads, a multiple of four long, goes to the library decoder as it is.\<close>

lemma normal_text_plain_all:
  "list_all (\<lambda>c. b64_alphabet c \<or> c = CHR ''='') s \<Longrightarrow> normal_text s = s"
proof (induction s)
  case Nil
  show ?case by (rule normal_text_Nil)
next
  case (Cons c s)
  then have c: "b64_alphabet c \<or> c = CHR ''=''" and IH: "normal_text s = s" by simp_all
  from b64_alphabet_plain(1-6) [OF c] IH show ?case
    by (simp add: normal_text_plain)
qed

lemma rstrip_nonspace_all: "list_all (\<lambda>c. \<not> py_isspace c) s \<Longrightarrow> rstrip s = s"
  using rstrip_append_nonspace [of s "[]"] by simp

lemma strip_nonspace_all: "list_all (\<lambda>c. \<not> py_isspace c) s \<Longrightarrow> strip s = s"
  by (cases s) (simp_all add: strip_def lstrip_def rstrip_nonspace_all)

lemma safe_b64decode_plain:
  assumes "list_all (\<lambda>c. b64_alphabet c \<or> c = CHR ''='') s" and "length s mod 4 = 0"
  shows "safe_b64decode dec s = dec s"
proof -
  from assms(1) have "list_all (\<lambda>c. \<not> py_isspace c) s"
  proof (induction s)
    case Nil
    show ?case by simp
  next
    case (Cons c s)
    then have "b64_alphabet c \<or> c = CHR ''=''" by simp
    from b64_alphabet_plain(7) [OF this] Cons show ?case by simp
  qed
  then have "strip s = s" by (rule strip_nonspace_all)
  with normal_text_plain_all [OF assms(1)] assms(2) show ?thesis
    by (simp add: safe_b64decode_normal_text)
qed

section \<open>Properties of the handshake\<close>

lemma read_hello_fields:
  assumes "read_hello decode codec_hint hello = Inr f"
  shows "h_conn hello = Some (hf_conn_b64 f)" "h_w hello = Some (hf_w f)" "h_h hello = Some (hf_h f)"
    "h_fps hello = Some (hf_fps f)" "h_exp hello = Some (hf_exp_srv f)"
    "hf_codec f = (case h_codec hello of None \<Rightarrow> codec_hint | Some c \<Rightarrow> c)"
    "safe_b64decode decode (hf_conn_b64 f) = Inr (hf_conn_id f)"
  using assms
  by (auto simp: read_hello_def and_then_def item_def Let_def split: sum.splits option.splits)

lemma read_hello_exp:
  "read_hello decode codec_hint (hello\<lparr>h_exp := Some e\<rparr>) =
     map_sum id (\<lambda>f. f\<lparr>hf_exp_srv := e\<rparr>) (read_hello decode codec_hint (hello\<lparr>h_exp := Some e'\<rparr>))"
  by (simp add: read_hello_def and_then_def item_def Let_def split: sum.splits option.splits)

lemma get_chunks_handshake_ok:
  assumes "get_chunks_handshake hmac decode access_key_b64 codec_hint exp_req client_nonce first = (ev, Inr s)"
  obtains hello f where "first = Some (FirstJson hello)" "read_hello decode codec_hint hello = Inr f"
    "aad s = make_aad (hf_conn_b64 f) exp_req (hf_codec f) (hf_w f) (hf_h f) (hf_fps f)"
    "conn_id s = hf_conn_id f"
    "ev = (if hf_exp_srv f \<noteq> exp_req
           then [Log Warning (''server exp mismatch: '' @ str_int (hf_exp_srv f) @ '' != '' @ str_int exp_req)]
           else []) @ [SendStart (hf_conn_b64 f) (hf_exp_srv f), Log Info ''[start] sent'']"
proof -
  from assms obtain access_key where "safe_b64decode decode access_key_b64 = Inr access_key"
    by (cases "safe_b64decode decode access_key_b64") (simp_all add: get_chunks_handshake_def)
  note k = this
  from assms k obtain hello where first: "first = Some (FirstJson hello)"
    by (cases first; cases "the first") (simp_all add: get_chunks_handshake_def)
  from assms k first have ty: "h_type hello = Some ''hello''"
    by (simp add: get_chunks_handshake_def split: if_splits)
  from assms k first ty obtain f where f: "read_hello decode codec_hint hello = Inr f"
    by (cases "read_hello decode codec_hint hello") (simp_all add: get_chunks_handshake_def)
  from assms k first ty f obtain key where
    "hkdf_sha256 hmac access_key (client_nonce @ hf_server_nonce f) hkdf_info 32 = Inr key"
    by (cases "hkdf_sha256 hmac access_key (client_nonce @ hf_server_nonce f) hkdf_info 32")
       (simp_all add: get_chunks_handshake_def Let_def)
  with assms k first ty f have
    "aad s = make_aad (hf_conn_b64 f) exp_req (hf_codec f) (hf_w f) (hf_h f) (hf_fps f)"
    "conn_id s = hf_conn_id f"
    "ev = (if hf_exp_srv f \<noteq> exp_req
           then [Log Warning (''server exp mismatch: '' @ str_int (hf_exp_srv f) @ '' != '' @ str_int exp_req)]
           else []) @ [SendStart (hf_conn_b64 f) (hf_exp_srv f), Log Info ''[start] sent'']"
    by (auto simp: get_chunks_handshake_def Let_def)
  with first f show ?thesis by (rule that)
qed

lemma decode_access_key: "safe_b64decode b64decode ''AAAA'' = Inr [0, 0, 0]"
  by code_simp

lemma decode_conn: "safe_b64decode b64decode ''AAAAAA=='' = Inr [0, 0, 0, 0]"
  by code_simp

lemma decode_snonce: "safe_b64decode b64decode ''AQEBAQEBAQEBAQEBAQEBAQ=='' = Inr (replicate 16 1)"
proof -
  have "list_all (\<lambda>c. b64_alphabet c \<or> c = CHR ''='') ''AQEBAQEBAQEBAQEBAQEBAQ==''" by code_simp
  moreover have "length ''AQEBAQEBAQEBAQEBAQEBAQ=='' mod 4 = 0" by simp
  moreover have "b64decode ''AQEBAQEBAQEBAQEBAQEBAQ=='' = Inr (replicate 16 1)" by code_simp
  ultimately show ?thesis by (simp only: safe_b64decode_plain)
qed

lemma derive_sample_key:
  "hkdf_sha256 sample_mac [0, 0, 0] (replicate 16 0 @ replicate 16 1) hkdf_info 32 = Inr sample_key"
  unfolding sample_key_def by code_simp

lemma sample_aad:
  "make_aad ''AAAAAA=='' 100 ''vp9'' 1280 720 30 = utf8 ''AAAAAA==|100|vp9|1280x720|30''"
  by code_simp

lemma sample_warning: "str_int 200 = ''200''" "str_int 100 = ''100''"
  by code_simp+

lemma read_sample_hello:
  "read_hello b64decode hint (sample_hello e) =
     Inr \<lparr>hf_server_nonce = replicate 16 1, hf_conn_b64 = ''AAAAAA=='', hf_conn_id = [0, 0, 0, 0],
          hf_codec = ''vp9'', hf_w = 1280, hf_h = 720, hf_fps = 30, hf_exp_srv = e\<rparr>"
  by (simp add: read_hello_def sample_hello_def and_then_def item_def decode_conn decode_snonce)

lemma sample_get_chunks_handshake:
  "get_chunks_handshake sample_mac b64decode ''AAAA'' ''h264'' 100 (replicate 16 0)
     (Some (FirstJson (sample_hello 200))) =
   ([Log Warning ''server exp mismatch: 200 != 100'', SendStart ''AAAAAA=='' 200,
     Log Info ''[start] sent''],
    Inr \<lparr>conn_id = [0, 0, 0, 0], session_key = sample_key,
         aad = utf8 ''AAAAAA==|100|vp9|1280x720|30''\<rparr>)"
  by (simp add: get_chunks_handshake_def read_sample_hello decode_access_key derive_sample_key
        sample_aad sample_warning Let_def)
     (simp add: sample_hello_def)

lemma sample_iter_handshake:
  "iter_handshake sample_mac b64decode ''AAAA'' ''h264'' 100 (replicate 16 0)
     (FirstJson (sample_hello 200)) =
   ([Log Warning ''server exp mismatch: 200 != 100''],
    Inr \<lparr>conn_id = [0, 0, 0, 0], session_key = sample_key,
         aad = utf8 ''AAAAAA==|100|vp9|1280x720|30''\<rparr>)"
  by (simp add: iter_handshake_def read_sample_hello decode_access_key derive_sample_key
        sample_aad sample_warning Let_def)
     (simp add: sample_hello_def)

lemma aad_differ: "utf8 ''AAAAAA==|100|vp9|1280x720|30'' \<noteq> utf8 ''AAAAAA==|200|vp9|1280x720|30''"
  by code_simp

lemma iter_handshake_ok:
  assumes "iter_handshake hmac decode access_key_b64 codec_hint exp_req client_nonce first = (ev, Inr s)"
  obtains hello f where "first = FirstJson hello" "read_hello decode codec_hint hello = Inr f"
    "aad s = make_aad (hf_conn_b64 f) exp_req (hf_codec f) (hf_w f) (hf_h f) (hf_fps f)"
    "conn_id s = hf_conn_id f"
    "ev = (if hf_exp_srv f \<noteq> exp_req
           then [Log Warning (''server exp mismatch: '' @ str_int (hf_exp_srv f) @ '' != '' @ str_int exp_req)]
           else [])"
proof -
  from assms obtain access_key where "safe_b64decode decode access_key_b64 = Inr access_key"
    by (cases "safe_b64decode decode access_key_b64") (simp_all add: iter_handshake_def)
  note k = this
  from assms k obtain hello where first: "first = FirstJson hello"
    by (cases first) (simp_all add: iter_handshake_def)
  from assms k first have ty: "h_type hello = Some ''hello''"
    by (simp add: iter_handshake_def split: if_splits)
  from assms k first ty obtain f where f: "read_hello decode codec_hint hello = Inr f"
    by (cases "read_hello decode codec_hint hello") (simp_all add: iter_handshake_def)
  from assms k first ty f obtain key where
    "hkdf_sha256 hmac access_key (client_nonce @ hf_server_nonce f) hkdf_info 32 = Inr key"
    by (cases "hkdf_sha256 hmac access_key (client_nonce @ hf_server_nonce f) hkdf_info 32")
       (simp_all add: iter_handshake_def Let_def)
  with assms k first ty f have
    "aad s = make_aad (hf_conn_b64 f) exp_req (hf_codec f) (hf_w f) (hf_h f) (hf_fps f)"
    "conn_id s = hf_conn_id f"
    "ev = (if hf_exp_srv f \<noteq> exp_req
           then [Log Warning (''server exp mismatch: '' @ str_int (hf_exp_srv f) @ '' != '' @ str_int exp_req)]
           else [])"
    by (auto simp: iter_handshake_def Let_def)
  with first f show ?thesis by (rule that)
qed

lemma get_chunks_handshake_exp:
  "snd (get_chunks_handshake hmac decode access_key_b64 codec_hint exp_req client_nonce
          (Some (FirstJson (hello\<lparr>h_exp := Some e1\<rparr>)))) =
   snd (get_chunks_handshake hmac decode access_key_b64 codec_hint exp_req client_nonce
          (Some (FirstJson (hello\<lparr>h_exp := Some e2\<rparr>))))"
proof (cases "read_hello decode codec_hint (hello\<lparr>h_exp := Some e2\<rparr>)")
  case (Inl e)
  with read_hello_exp [where decode = decode and codec_hint = codec_hint and hello = hello and e = e1 and e' = e2] show ?thesis
    by (simp add: get_chunks_handshake_def split: sum.splits)
next
  case (Inr f)
  with read_hello_exp [where decode = decode and codec_hint = codec_hint and hello = hello and e = e1 and e' = e2] show ?thesis
    by (simp add: get_chunks_handshake_def Let_def split: sum.splits)
qed

lemma iter_handshake_exp:
  "snd (iter_handshake hmac decode access_key_b64 codec_hint exp_req client_nonce
          (FirstJson (hello\<lparr>h_exp := Some e1\<rparr>))) =
   snd (iter_handshake hmac decode access_key_b64 codec_hint exp_req client_nonce
          (FirstJson (hello\<lparr>h_exp := Some e2\<rparr>)))"
proof (cases "read_hello decode codec_hint (hello\<lparr>h_exp := Some e2\<rparr>)")
  case (Inl e)
  with read_hello_exp [where decode = decode and codec_hint = codec_hint and hello = hello and e = e1 and e' = e2] show ?thesis
    by (simp add: iter_handshake_def split: sum.splits)
next
  case (Inr f)
  with read_hello_exp [where decode = decode and codec_hint = codec_hint and hello = hello and e = e1 and e' = e2] show ?thesis
    by (simp add: iter_handshake_def Let_def split: sum.splits)
qed

text \<open>
  C1 (as amended). Whenever a handshake succeeds (in either file), the hello was a JSON
  object with \<open>conn\<close>, \<open>w\<close>, \<open>h\<close>, \<open>fps\<close> and \<open>exp\<close>, and the associated data is the
  UTF-8 text \<open>conn|exp|codec|wxh|fps\<close> built from the hello's \<open>conn\<close> text, the \<open>exp\<close>
  the client requested, the hello's codec (or the hint), and its width, height and
  frame rate. A server \<open>exp\<close> that differs only adds the mismatch warning to the log
  (and is what \<^verbatim>\<open>get_chunks\<close> echoes in its start message): the session, and so the
  associated data, is the same for every value of the hello's \<open>exp\<close>.
\<close>

theorem aad_built_from_requested_exp:
  "(get_chunks_handshake hmac decode access_key_b64 codec_hint exp_req client_nonce first = (ev, Inr s) \<longrightarrow>
      (\<exists>hello conn wd ht fr exp_srv.
         first = Some (FirstJson hello) \<and> h_conn hello = Some conn \<and> h_w hello = Some wd
         \<and> h_h hello = Some ht \<and> h_fps hello = Some fr \<and> h_exp hello = Some exp_srv
         \<and> aad s = utf8 (conn @ ''|'' @ str_int exp_req @ ''|''
                           @ (case h_codec hello of None \<Rightarrow> codec_hint | Some c \<Rightarrow> c) @ ''|''
                           @ str_int wd @ ''x'' @ str_int ht @ ''|'' @ str_int fr)
         \<and> ev = (if exp_srv \<noteq> exp_req
                  then [Log Warning (''server exp mismatch: '' @ str_int exp_srv @ '' != ''
                                     @ str_int exp_req)]
                  else []) @ [SendStart conn exp_srv, Log Info ''[start] sent'']))
   \<and> (iter_handshake hmac decode access_key_b64 codec_hint exp_req client_nonce first' = (ev', Inr s') \<longrightarrow>
      (\<exists>hello conn wd ht fr exp_srv.
         first' = FirstJson hello \<and> h_conn hello = Some conn \<and> h_w hello = Some wd
         \<and> h_h hello = Some ht \<and> h_fps hello = Some fr \<and> h_exp hello = Some exp_srv
         \<and> aad s' = utf8 (conn @ ''|'' @ str_int exp_req @ ''|''
                            @ (case h_codec hello of None \<Rightarrow> codec_hint | Some c \<Rightarrow> c) @ ''|''
                            @ str_int wd @ ''x'' @ str_int ht @ ''|'' @ str_int fr)
         \<and> ev' = (if exp_srv \<noteq> exp_req
                   then [Log Warning (''server exp mismatch: '' @ str_int exp_srv @ '' != ''
                                      @ str_int exp_req)]
                   else [])))
   \<and> snd (get_chunks_handshake hmac decode access_key_b64 codec_hint exp_req client_nonce
            (Some (FirstJson (hello0\<lparr>h_exp := Some e1\<rparr>)))) =
     snd (get_chunks_handshake hmac decode access_key_b64 codec_hint exp_req client_nonce
            (Some (FirstJson (hello0\<lparr>h_exp := Some e2\<rparr>))))
   \<and> snd (iter_handshake hmac decode access_key_b64 codec_hint exp_req client_nonce
            (FirstJson (hello0\<lparr>h_exp := Some e1\<rparr>))) =
     snd (iter_handshake hmac decode access_key_b64 codec_hint exp_req client_nonce
            (FirstJson (hello0\<lparr>h_exp := Some e2\<rparr>)))"
proof (intro conjI impI)
  assume "get_chunks_handshake hmac decode access_key_b64 codec_hint exp_req client_nonce first = (ev, Inr s)"
  then obtain hello f where first: "first = Some (FirstJson hello)"
    and f: "read_hello decode codec_hint hello = Inr f"
    and a: "aad s = make_aad (hf_conn_b64 f) exp_req (hf_codec f) (hf_w f) (hf_h f) (hf_fps f)"
    and e: "ev = (if hf_exp_srv f \<noteq> exp_req
           then [Log Warning (''server exp mismatch: '' @ str_int (hf_exp_srv f) @ '' != '' @ str_int exp_req)]
           else []) @ [SendStart (hf_conn_b64 f) (hf_exp_srv f), Log Info ''[start] sent'']"
    by (rule get_chunks_handshake_ok)
  from read_hello_fields [OF f] first a e
  show "\<exists>hello conn wd ht fr exp_srv.
         first = Some (FirstJson hello) \<and> h_conn hello = Some conn \<and> h_w hello = Some wd
         \<and> h_h hello = Some ht \<and> h_fps hello = Some fr \<and> h_exp hello = Some exp_srv
         \<and> aad s = utf8 (conn @ ''|'' @ str_int exp_req @ ''|''
                           @ (case h_codec hello of None \<Rightarrow> codec_hint | Some c \<Rightarrow> c) @ ''|''
                           @ str_int wd @ ''x'' @ str_int ht @ ''|'' @ str_int fr)
         \<and> ev = (if exp_srv \<noteq> exp_req
                  then [Log Warning (''server exp mismatch: '' @ str_int exp_srv @ '' != ''
                                     @ str_int exp_req)]
                  else []) @ [SendStart conn exp_srv, Log Info ''[start] sent'']"
    by (intro exI [of _ hello] exI [of _ "hf_conn_b64 f"] exI [of _ "hf_w f"] exI [of _ "hf_h f"]
          exI [of _ "hf_fps f"] exI [of _ "hf_exp_srv f"]) (simp add: make_aad_def)
next
  assume "iter_handshake hmac decode access_key_b64 codec_hint exp_req client_nonce first' = (ev', Inr s')"
  then obtain hello f where first: "first' = FirstJson hello"
    and f: "read_hello decode codec_hint hello = Inr f"
    and a: "aad s' = make_aad (hf_conn_b64 f) exp_req (hf_codec f) (hf_w f) (hf_h f) (hf_fps f)"
    and e: "ev' = (if hf_exp_srv f \<noteq> exp_req
           then [Log Warning (''server exp mismatch: '' @ str_int (hf_exp_srv f) @ '' != '' @ str_int exp_req)]
           else [])"
    by (rule iter_handshake_ok)
  from read_hello_fields [OF f] first a e
  show "\<exists>hello conn wd ht fr exp_srv.
         first' = FirstJson hello \<and> h_conn hello = Some conn \<and> h_w hello = Some wd
         \<and> h_h hello = Some ht \<and> h_fps hello = Some fr \<and> h_exp hello = Some exp_srv
         \<and> aad s' = utf8 (conn @ ''|'' @ str_int exp_req @ ''|''
                            @ (case h_codec hello of None \<Rightarrow> codec_hint | Some c \<Rightarrow> c) @ ''|''
                            @ str_int wd @ ''x'' @ str_int ht @ ''|'' @ str_int fr)
         \<and> ev' = (if exp_srv \<noteq> exp_req
                   then [Log Warning (''server exp mismatch: '' @ str_int exp_srv @ '' != ''
                                      @ str_int exp_req)]
                   else [])"
    by (intro exI [of _ hello] exI [of _ "hf_conn_b64 f"] exI [of _ "hf_w f"] exI [of _ "hf_h f"]
          exI [of _ "hf_fps f"] exI [of _ "hf_exp_srv f"]) (simp add: make_aad_def)
qed (rule get_chunks_handshake_exp iter_handshake_exp)+

theorem aad_built_from_requested_exp_witness:
  "get_chunks_handshake sample_mac b64decode ''AAAA'' ''h264'' 100 (replicate 16 0)
     (Some (FirstJson (sample_hello 200))) =
     ([Log Warning ''server exp mismatch: 200 != 100'', SendStart ''AAAAAA=='' 200,
       Log Info ''[start] sent''], Inr sample_session)
   \<and> aad sample_session =
       utf8 (''AAAAAA=='' @ ''|'' @ str_int 100 @ ''|'' @ ''vp9'' @ ''|'' @ str_int 1280 @ ''x''
             @ str_int 720 @ ''|'' @ str_int 30)
   \<and> iter_handshake sample_mac b64decode ''AAAA'' ''h264'' 100 (replicate 16 0)
       (FirstJson (sample_hello 200)) =
       ([Log Warning ''server exp mismatch: 200 != 100''], Inr sample_session)"
proof -
  have g: "get_chunks_handshake sample_mac b64decode ''AAAA'' ''h264'' 100 (replicate 16 0)
     (Some (FirstJson (sample_hello 200))) =
     ([Log Warning ''server exp mismatch: 200 != 100'', SendStart ''AAAAAA=='' 200,
       Log Info ''[start] sent''], Inr sample_session)"
    by (simp add: sample_get_chunks_handshake sample_session_def)
  have i: "iter_handshake sample_mac b64decode ''AAAA'' ''h264'' 100 (replicate 16 0)
       (FirstJson (sample_hello 200)) =
       ([Log Warning ''server exp mismatch: 200 != 100''], Inr sample_session)"
    by (simp add: sample_iter_handshake sample_session_def)
  have fields: "h_conn (sample_hello 200) = Some ''AAAAAA=='' \<and> h_w (sample_hello 200) = Some 1280
      \<and> h_h (sample_hello 200) = Some 720 \<and> h_fps (sample_hello 200) = Some 30
      \<and> h_codec (sample_hello 200) = Some ''vp9'' \<and> h_exp (sample_hello 200) = Some 200"
    by (simp add: sample_hello_def)
  from aad_built_from_requested_exp [of sample_mac b64decode "''AAAA''" "''h264''" 100
      "replicate 16 0" "Some (FirstJson (sample_hello 200))" _ sample_session
      "FirstJson (sample_hello 200)" _ sample_session] g i
  have "\<exists>hello conn wd ht fr exp_srv.
         Some (FirstJson (sample_hello 200)) = Some (FirstJson hello) \<and> h_conn hello = Some conn
         \<and> h_w hello = Some wd \<and> h_h hello = Some ht \<and> h_fps hello = Some fr
         \<and> h_exp hello = Some exp_srv
         \<and> aad sample_session = utf8 (conn @ ''|'' @ str_int 100 @ ''|''
                           @ (case h_codec hello of None \<Rightarrow> ''h264'' | Some c \<Rightarrow> c) @ ''|''
                           @ str_int wd @ ''x'' @ str_int ht @ ''|'' @ str_int fr)
         \<and> [Log Warning ''server exp mismatch: 200 != 100'', SendStart ''AAAAAA=='' 200,
             Log Info ''[start] sent''] = (if exp_srv \<noteq> 100
                  then [Log Warning (''server exp mismatch: '' @ str_int exp_srv @ '' != ''
                                     @ str_int 100)]
                  else []) @ [SendStart conn exp_srv, Log Info ''[start] sent'']"
    by blast
  with fields have "aad sample_session =
       utf8 (''AAAAAA=='' @ ''|'' @ str_int 100 @ ''|'' @ ''vp9'' @ ''|'' @ str_int 1280 @ ''x''
             @ str_int 720 @ ''|'' @ str_int 30)"
    by auto
  with g i show ?thesis by simp
qed

text \<open>
  The claim as stated fails on the sample connection: the client requested
  \<open>exp = 100\<close>, the hello carries \<open>exp = 200\<close>, and the associated data of both files
  holds 100, which is not the text with the server's 200.
\<close>

theorem aad_server_exp_counterexample:
  "get_chunks_handshake sample_mac b64decode ''AAAA'' ''h264'' 100 (replicate 16 0)
     (Some (FirstJson (sample_hello 200))) =
     ([Log Warning ''server exp mismatch: 200 != 100'', SendStart ''AAAAAA=='' 200,
       Log Info ''[start] sent''],
      Inr \<lparr>conn_id = [0, 0, 0, 0], session_key = sample_key,
           aad = utf8 ''AAAAAA==|100|vp9|1280x720|30''\<rparr>)
   \<and> iter_handshake sample_mac b64decode ''AAAA'' ''h264'' 100 (replicate 16 0)
       (FirstJson (sample_hello 200)) =
     ([Log Warning ''server exp mismatch: 200 != 100''],
      Inr \<lparr>conn_id = [0, 0, 0, 0], session_key = sample_key,
           aad = utf8 ''AAAAAA==|100|vp9|1280x720|30''\<rparr>)
   \<and> utf8 ''AAAAAA==|100|vp9|1280x720|30'' \<noteq> utf8 ''AAAAAA==|200|vp9|1280x720|30''"
  by (simp only: sample_get_chunks_handshake sample_iter_handshake aad_differ simp_thms)

section \<open>Properties of the receive loops\<close>

subsection \<open>The loops on the sample session\<close>

lemma sample_frame_parts:
  "length (sample_frame c ct) = 28 + length ct"
  "take 12 (sample_frame c ct) = sample_nonce c"
  "take 4 (sample_nonce c) = [0, 0, 0, 0]"
  "take 16 (drop 12 (sample_frame c ct)) = replicate 16 0"
  "drop 28 (sample_frame c ct) = ct"
  by (simp_all add: sample_frame_def sample_nonce_def)

lemma sample_counter: "c < 256 \<Longrightarrow> be_u64 (take 8 (drop 4 (sample_nonce c))) = Inr c"
  by (simp add: sample_nonce_def be_u64_def unat_of_nat)

lemma iter_step_sample:
  "c < 256 \<Longrightarrow>
   iter_step accept_all sample_session last_counter (Binary (sample_frame c ct)) =
     (if c \<le> last_counter
      then ([], Inl (RuntimeError (''counter not increasing ('' @ str_nat c @ '' <= ''
                                    @ str_nat last_counter @ '')'')))
      else ([Decrypt (sample_nonce c) (ct @ replicate 16 0) (aad sample_session), Yield ct], Inr c))"
  by (simp add: iter_step_def sample_frame_parts sample_counter Let_def join_ct_tag_def accept_all_def)
     (simp add: sample_session_def)

lemma get_chunks_step_sample:
  "c < 256 \<Longrightarrow>
   get_chunks_step accept_all sample_session deadline st (now, Binary (sample_frame c ct)) =
     ([Decrypt (sample_nonce c) (ct @ replicate 16 0) (aad sample_session), Yield ct],
      Inr (st\<lparr>last_rx_ts := now, first_bin_seen := True\<rparr>))"
  by (simp add: get_chunks_step_def sample_frame_parts sample_counter Let_def join_ct_tag_def
        accept_all_def)
     (simp add: sample_session_def)

lemma str_nat_digits: "str_nat 3 = ''3''" "str_nat 5 = ''5''"
  by code_simp+

lemma sample_iter_handshake_session:
  "iter_handshake sample_mac b64decode ''AAAA'' ''h264'' 100 (replicate 16 0)
     (FirstJson (sample_hello 200)) =
   ([Log Warning ''server exp mismatch: 200 != 100''], Inr sample_session)"
  by (simp add: sample_iter_handshake sample_session_def)

subsection \<open>Connection id and short frames\<close>

text \<open>
  C6. In both receive loops a binary frame of at least 28 bytes whose first four bytes
  differ from the handshake's \<open>conn_id\<close> raises the fatal error, and the loop ends there
  whatever follows. No event precedes the error, so no decryption was attempted, and
  the outcome is the same for every decryption function: the frame is rejected whether
  or not it would authenticate.
\<close>

theorem conn_id_mismatch_fatal:
  assumes "28 \<le> length buf" and "take 4 buf \<noteq> conn_id s"
  shows "iter_step decrypt s last_counter (Binary buf) =
           ([], Inl (RuntimeError ''nonce connId mismatch''))
       \<and> iter_loop decrypt s last_counter (Binary buf # msgs) =
           ([], RuntimeError ''nonce connId mismatch'')
       \<and> get_chunks_step decrypt s first_bin_deadline st (now, Binary buf) =
           ([], Inl (RuntimeError ''nonce connId mismatch''))
       \<and> get_chunks_loop decrypt s first_bin_deadline st ((now, Binary buf) # rxs) =
           ([], RuntimeError ''nonce connId mismatch'')"
proof -
  have 1: "iter_step decrypt s last_counter (Binary buf) =
           ([], Inl (RuntimeError ''nonce connId mismatch''))"
    using assms by (simp add: iter_step_def Let_def)
  have 2: "get_chunks_step decrypt s first_bin_deadline st (now, Binary buf) =
           ([], Inl (RuntimeError ''nonce connId mismatch''))"
    using assms by (simp add: get_chunks_step_def Let_def)
  show ?thesis using 1 2 by simp
qed

theorem conn_id_mismatch_fatal_witness:
  "iter_loop accept_all sample_session 0
     [Binary ([9, 9, 9, 9] @ replicate 24 0), Binary (sample_frame 1 [7])] =
     ([], RuntimeError ''nonce connId mismatch'')
   \<and> get_chunks_loop accept_all sample_session 60 \<lparr>last_rx_ts = 0, first_bin_seen = False\<rparr>
       [(1, Binary ([9, 9, 9, 9] @ replicate 24 0)), (2, Binary (sample_frame 1 [7]))] =
     ([], RuntimeError ''nonce connId mismatch'')"
  using conn_id_mismatch_fatal [of "[9, 9, 9, 9] @ replicate 24 0" sample_session accept_all 0
      "[Binary (sample_frame 1 [7])]" 60 "\<lparr>last_rx_ts = 0, first_bin_seen = False\<rparr>" 1
      "[(2, Binary (sample_frame 1 [7]))]"]
  by (simp add: sample_session_def)

text \<open>
  C7. In both receive loops a binary message shorter than 28 bytes only leaves a warning
  in the log: nothing is decrypted or yielded, no error is raised, the loop goes on
  with the next message with the same session (key, associated data, connection id)
  and the same \<open>last_counter\<close>; in \<^verbatim>\<open>get_chunks\<close> only the time of the last
  reception is updated.
\<close>

theorem short_frame_skipped:
  assumes "length buf < 28"
  shows "iter_step decrypt s last_counter (Binary buf) =
           ([Log Warning (''short frame: len='' @ str_nat (length buf))], Inr last_counter)
       \<and> iter_loop decrypt s last_counter (Binary buf # msgs) =
           (Log Warning (''short frame: len='' @ str_nat (length buf))
              # fst (iter_loop decrypt s last_counter msgs),
            snd (iter_loop decrypt s last_counter msgs))
       \<and> get_chunks_step decrypt s first_bin_deadline st (now, Binary buf) =
           ([Log Warning (''short frame: len='' @ str_nat (length buf))], Inr (st\<lparr>last_rx_ts := now\<rparr>))
       \<and> get_chunks_loop decrypt s first_bin_deadline st ((now, Binary buf) # rxs) =
           (Log Warning (''short frame: len='' @ str_nat (length buf))
              # fst (get_chunks_loop decrypt s first_bin_deadline (st\<lparr>last_rx_ts := now\<rparr>) rxs),
            snd (get_chunks_loop decrypt s first_bin_deadline (st\<lparr>last_rx_ts := now\<rparr>) rxs))"
proof -
  have 1: "iter_step decrypt s last_counter (Binary buf) =
           ([Log Warning (''short frame: len='' @ str_nat (length buf))], Inr last_counter)"
    using assms by (simp add: iter_step_def)
  have 2: "get_chunks_step decrypt s first_bin_deadline st (now, Binary buf) =
           ([Log Warning (''short frame: len='' @ str_nat (length buf))], Inr (st\<lparr>last_rx_ts := now\<rparr>))"
    using assms by (simp add: get_chunks_step_def)
  show ?thesis using 1 2 by (simp add: split_beta)
qed

theorem short_frame_skipped_witness:
  "iter_loop accept_all sample_session 4 [Binary [1, 2, 3], Binary (sample_frame 5 [7])] =
     ([Log Warning ''short frame: len=3'',
       Decrypt (sample_nonce 5) ([7] @ replicate 16 0) (aad sample_session), Yield [7]],
      ConnectionClosed)
   \<and> get_chunks_loop accept_all sample_session 60 \<lparr>last_rx_ts = 0, first_bin_seen = False\<rparr>
       [(1, Binary [1, 2, 3]), (2, Binary (sample_frame 5 [7]))] =
     ([Log Warning ''short frame: len=3'',
       Decrypt (sample_nonce 5) ([7] @ replicate 16 0) (aad sample_session), Yield [7]],
      ConnectionClosed)"
proof -
  have short: "length [1, 2, 3 :: byte] < 28" by simp
  have len: "''short frame: len='' @ str_nat (length [1, 2, 3 :: byte]) = ''short frame: len=3''"
    by code_simp
  have rest1: "iter_loop accept_all sample_session 4 [Binary (sample_frame 5 [7])] =
      ([Decrypt (sample_nonce 5) ([7] @ replicate 16 0) (aad sample_session), Yield [7]],
       ConnectionClosed)"
    by (simp add: iter_step_sample)
  have rest2: "get_chunks_loop accept_all sample_session 60
      (\<lparr>last_rx_ts = 0, first_bin_seen = False\<rparr>\<lparr>last_rx_ts := 1\<rparr>)
      [(2, Binary (sample_frame 5 [7]))] =
      ([Decrypt (sample_nonce 5) ([7] @ replicate 16 0) (aad sample_session), Yield [7]],
       ConnectionClosed)"
    by (simp add: get_chunks_step_sample)
  show ?thesis
    using short_frame_skipped [OF short, of accept_all sample_session 4
      "[Binary (sample_frame 5 [7])]" 60 "\<lparr>last_rx_ts = 0, first_bin_seen = False\<rparr>" 1
      "[(2, Binary (sample_frame 5 [7]))]"]
    by (simp only: len rest1 rest2 fst_conv snd_conv simp_thms)
qed

subsection \<open>The first-frame deadline\<close>

lemma get_chunks_step_no_timeout:
  "snd (get_chunks_step decrypt s first_bin_deadline st rx) \<noteq>
     Inl (RuntimeError ''first binary frame timeout'')"
  by (cases rx)
     (simp add: get_chunks_step_def Let_def be_u64_def split: ws_msg.splits sum.splits option.splits)

lemma get_chunks_loop_no_timeout:
  "snd (get_chunks_loop decrypt s first_bin_deadline st rxs) \<noteq>
     RuntimeError ''first binary frame timeout''"
proof (induction rxs arbitrary: st)
  case Nil
  show ?case by simp
next
  case (Cons rx rxs)
  obtain ev r where step: "get_chunks_step decrypt s first_bin_deadline st rx = (ev, r)"
    by (cases "get_chunks_step decrypt s first_bin_deadline st rx")
  show ?case
  proof (cases r)
    case (Inl e)
    with step get_chunks_step_no_timeout [of decrypt s first_bin_deadline st rx]
    show ?thesis by simp
  next
    case (Inr st')
    with step Cons.IH [of st'] show ?thesis by (simp add: split_beta)
  qed
qed

lemma a2b_base64_errors:
  "a2b_base64 cs quad_pos leftchar pads out = Inl e \<Longrightarrow> \<exists>m. e = BinasciiError m"
  by (induction cs quad_pos leftchar pads out rule: a2b_base64.induct)
     (auto split: if_splits option.splits)

lemma b64decode_errors:
  "b64decode t = Inl e \<Longrightarrow> (\<exists>m. e = BinasciiError m) \<or> (\<exists>m. e = ValueError m)"
  by (auto simp: b64decode_def dest: a2b_base64_errors split: if_splits)

lemma safe_b64decode_errors:
  "safe_b64decode b64decode t = Inl e \<Longrightarrow> (\<exists>m. e = BinasciiError m) \<or> (\<exists>m. e = ValueError m)"
  unfolding safe_b64decode_normal_text by (rule b64decode_errors)

lemma hkdf_loop_errors:
  "hkdf_loop h prk info L okm t i = Inl e \<Longrightarrow> \<exists>m. e = ValueError m"
proof (induction h prk info L okm t i rule: hkdf_loop.induct)
  case (1 h prk info L okm t i)
  show ?case
  proof (cases "bytes_of_int i")
    case (Inl e')
    with "1.prems" show ?thesis
      by (subst (asm) hkdf_loop_step) (auto simp: bytes_of_int_def split: if_splits)
  next
    case (Inr b)
    with "1.prems" have lt: "int (length okm) < L"
      and rec: "hkdf_loop h prk info L (okm @ h prk (t @ info @ b)) (h prk (t @ info @ b)) (i + 1) = Inl e"
      by (subst (asm) hkdf_loop_step, simp split: if_splits)+
    from "1.IH" [OF lt Inr refl rec] show ?thesis .
  qed
qed

lemma read_hello_errors:
  "read_hello b64decode codec_hint hello = Inl e \<Longrightarrow>
   (\<exists>m. e = BinasciiError m) \<or> (\<exists>m. e = ValueError m) \<or> (\<exists>m. e = KeyError m)"
  by (auto simp: read_hello_def and_then_def item_def Let_def
           split: sum.splits option.splits dest: safe_b64decode_errors)

lemma get_chunks_handshake_no_timeout:
  "snd (get_chunks_handshake hmac b64decode access_key_b64 codec_hint exp_req client_nonce first)
     \<noteq> Inl (RuntimeError ''first binary frame timeout'')"
proof
  assume t: "snd (get_chunks_handshake hmac b64decode access_key_b64 codec_hint exp_req client_nonce first)
     = Inl (RuntimeError ''first binary frame timeout'')"
  show False
  proof (cases "safe_b64decode b64decode access_key_b64")
    case (Inl e)
    with t safe_b64decode_errors [OF Inl] show False
      by (auto simp: get_chunks_handshake_def)
  next
    case key: (Inr access_key)
    show False
    proof (cases first)
      case None
      with t key show False by (simp add: get_chunks_handshake_def)
    next
      case (Some fm)
      show False
      proof (cases fm)
        case (FirstJson hello)
        show False
        proof (cases "read_hello b64decode codec_hint hello")
          case (Inl e)
          with t key Some FirstJson read_hello_errors [OF Inl] show False
            by (auto simp: get_chunks_handshake_def split: if_splits)
        next
          case (Inr f)
          show False
          proof (cases "hkdf_sha256 hmac access_key (client_nonce @ hf_server_nonce f) hkdf_info 32")
            case (Inl e)
            then have "\<exists>m. e = ValueError m"
              by (auto simp: hkdf_sha256_def dest: hkdf_loop_errors)
            with t key Some FirstJson Inr Inl show False
              by (auto simp: get_chunks_handshake_def Let_def split: if_splits)
          next
            case r: (Inr k)
            with t key Some FirstJson Inr show False
              by (auto simp: get_chunks_handshake_def Let_def split: if_splits)
          qed
        qed
      qed (use t key Some in \<open>simp_all add: get_chunks_handshake_def\<close>)
    qed
  qed
qed

text \<open>
  C8. The error of the first-binary-frame deadline is never raised: not by a pass
  through the loop body of \<^verbatim>\<open>get_chunks\<close>, whatever the state, the message and the
  clock, not by the loop, and not by a whole connection. The test of the deadline
  comes after a frame was decrypted and \<open>first_bin_seen\<close> was set, so its condition
  \<open>\<not> first_bin_seen\<close> is false whenever it is evaluated.
\<close>

theorem first_frame_timeout_unreachable:
  "snd (get_chunks_step decrypt s first_bin_deadline st rx)
     \<noteq> Inl (RuntimeError ''first binary frame timeout'')
   \<and> snd (get_chunks_loop decrypt s first_bin_deadline st rxs)
     \<noteq> RuntimeError ''first binary frame timeout''
   \<and> snd (get_chunks hmac b64decode decrypt access_key_b64 codec_hint first_frame_timeout exp_req
            client_nonce first now0 rxs)
     \<noteq> RuntimeError ''first binary frame timeout''"
proof (intro conjI)
  show "snd (get_chunks_step decrypt s first_bin_deadline st rx)
     \<noteq> Inl (RuntimeError ''first binary frame timeout'')"
    by (rule get_chunks_step_no_timeout)
  show "snd (get_chunks_loop decrypt s first_bin_deadline st rxs)
     \<noteq> RuntimeError ''first binary frame timeout''"
    by (rule get_chunks_loop_no_timeout)
  obtain ev r where hs: "get_chunks_handshake hmac b64decode access_key_b64 codec_hint exp_req
      client_nonce first = (ev, r)"
    by (cases "get_chunks_handshake hmac b64decode access_key_b64 codec_hint exp_req client_nonce first")
  show "snd (get_chunks hmac b64decode decrypt access_key_b64 codec_hint first_frame_timeout exp_req
            client_nonce first now0 rxs) \<noteq> RuntimeError ''first binary frame timeout''"
  proof (cases r)
    case (Inl e)
    with hs get_chunks_handshake_no_timeout [of hmac access_key_b64 codec_hint exp_req client_nonce first]
    show ?thesis by (simp add: get_chunks_def)
  next
    case (Inr s')
    with hs get_chunks_loop_no_timeout [of decrypt s' "now0 + first_frame_timeout"
        "\<lparr>last_rx_ts = now0, first_bin_seen = False\<rparr>" rxs]
    show ?thesis by (simp add: get_chunks_def split_beta)
  qed
qed

theorem first_frame_timeout_unreachable_witness:
  "(60::real) < 100
   \<and> get_chunks_loop accept_all sample_session 60 \<lparr>last_rx_ts = 0, first_bin_seen = False\<rparr>
       [(100, Binary (sample_frame 1 [7]))] =
     ([Decrypt (sample_nonce 1) ([7] @ replicate 16 0) (aad sample_session), Yield [7]],
      ConnectionClosed)"
  using first_frame_timeout_unreachable [of accept_all sample_session 60
      "\<lparr>last_rx_ts = 0, first_bin_seen = False\<rparr>" "(100, Binary (sample_frame 1 [7]))"
      "[(100, Binary (sample_frame 1 [7]))]"]
  by (simp add: get_chunks_step_sample)

subsection \<open>The replay counter\<close>

lemma nonce_counter: "take 8 (drop 4 (take 12 buf)) = take 8 (drop 4 buf)"
  by (simp add: drop_take)

lemma str_nat_0: "str_nat 0 = ''0''"
  by code_simp

text \<open>A pass that goes on has either left the counter alone or raised it to the frame's counter.\<close>

lemma iter_step_accepts:
  assumes "iter_step decrypt s last_counter msg = (ev, r)" and "Decrypt nonce data a \<in> set ev"
  shows "\<exists>c. be_u64 (take 8 (drop 4 nonce)) = Inr c \<and> last_counter < c
            \<and> (\<forall>lc'. r = Inr lc' \<longrightarrow> lc' = c)"
proof (cases msg)
  case (Text t)
  with assms show ?thesis by (auto simp: iter_step_def)
next
  case (Binary buf)
  show ?thesis
  proof (cases "be_u64 (take 8 (drop 4 buf))")
    case (Inl e)
    with assms Binary show ?thesis
      by (auto simp: iter_step_def Let_def nonce_counter split: if_splits)
  next
    case (Inr counter)
    with assms Binary have passed: "\<not> counter \<le> last_counter"
      and nonce: "nonce = take 12 buf"
      and r: "r = Inr counter \<or> r = Inl InvalidTag"
      by (auto simp: iter_step_def Let_def nonce_counter split: if_splits option.splits)
    from nonce Inr have "be_u64 (take 8 (drop 4 nonce)) = Inr counter"
      by (simp add: nonce_counter)
    with passed r show ?thesis by auto
  qed
qed

lemma iter_step_monotone:
  assumes "iter_step decrypt s last_counter msg = (ev, Inr lc')"
  shows "last_counter \<le> lc'"
proof (cases msg)
  case (Text t)
  with assms show ?thesis by (auto simp: iter_step_def)
next
  case (Binary buf)
  show ?thesis
  proof (cases "be_u64 (take 8 (drop 4 buf))")
    case (Inl e)
    with assms Binary show ?thesis
      by (auto simp: iter_step_def Let_def nonce_counter split: if_splits)
  next
    case (Inr counter)
    with assms Binary have "lc' = last_counter \<or> (lc' = counter \<and> \<not> counter \<le> last_counter)"
      by (auto simp: iter_step_def Let_def nonce_counter split: if_splits option.splits)
    then show ?thesis by auto
  qed
qed

lemma iter_loop_accepts:
  "iter_loop decrypt s last_counter msgs = (ev, e) \<Longrightarrow> Decrypt nonce data a \<in> set ev \<Longrightarrow>
   \<exists>c. be_u64 (take 8 (drop 4 nonce)) = Inr c \<and> last_counter < c"
proof (induction msgs arbitrary: last_counter ev e)
  case Nil
  then show ?case by simp
next
  case (Cons msg msgs)
  obtain ev1 r where step: "iter_step decrypt s last_counter msg = (ev1, r)"
    by (cases "iter_step decrypt s last_counter msg")
  show ?case
  proof (cases r)
    case (Inl e1)
    with step Cons.prems have "ev = ev1" by simp
    with Cons.prems(2) iter_step_accepts [OF step] show ?thesis by blast
  next
    case (Inr lc')
    obtain ev2 e2 where rest: "iter_loop decrypt s lc' msgs = (ev2, e2)"
      by (cases "iter_loop decrypt s lc' msgs")
    with step Inr Cons.prems have ev: "ev = ev1 @ ev2" by simp
    from step Inr have mono: "last_counter \<le> lc'" by (simp add: iter_step_monotone)
    from Cons.prems(2) ev consider "Decrypt nonce data a \<in> set ev1" | "Decrypt nonce data a \<in> set ev2"
      by auto
    then show ?thesis
    proof cases
      case 1
      with iter_step_accepts [OF step] show ?thesis by blast
    next
      case 2
      from Cons.IH [OF rest 2] mono show ?thesis by auto
    qed
  qed
qed

text \<open>
  C9. \<^verbatim>\<open>iter_plain_chunks\<close> starts its loop with \<open>last_counter = 0\<close> and rejects every
  counter that is not greater: after a successful handshake a first frame with counter
  0 (of the right connection id) raises the ordering error, and every frame that
  passes the check and reaches the decryption, in any run, has a counter of at least 1.
\<close>

theorem counter_zero_rejected:
  assumes "iter_handshake hmac decode access_key_b64 codec_hint exp_req client_nonce first = (ev0, Inr s)"
  shows "(28 \<le> length buf \<and> take 4 buf = conn_id s \<and> be_u64 (take 8 (drop 4 buf)) = Inr 0 \<longrightarrow>
            iter_plain_chunks hmac decode decrypt access_key_b64 codec_hint exp_req client_nonce first
              (Binary buf # msgs) = (ev0, RuntimeError ''counter not increasing (0 <= 0)''))
       \<and> (\<forall>ev e nonce data a.
            iter_plain_chunks hmac decode decrypt access_key_b64 codec_hint exp_req client_nonce first
              msgs = (ev, e) \<and> Decrypt nonce data a \<in> set ev \<longrightarrow>
            (\<exists>c. be_u64 (take 8 (drop 4 nonce)) = Inr c \<and> 1 \<le> c))"
proof (intro conjI impI allI)
  assume "28 \<le> length buf \<and> take 4 buf = conn_id s \<and> be_u64 (take 8 (drop 4 buf)) = Inr 0"
  then have "iter_step decrypt s 0 (Binary buf) =
      ([], Inl (RuntimeError ''counter not increasing (0 <= 0)''))"
    by (simp add: iter_step_def Let_def str_nat_0 nonce_counter)
  with assms show "iter_plain_chunks hmac decode decrypt access_key_b64 codec_hint exp_req
      client_nonce first (Binary buf # msgs) = (ev0, RuntimeError ''counter not increasing (0 <= 0)'')"
    by (simp add: iter_plain_chunks_def)
next
  fix ev e nonce data a
  assume run: "iter_plain_chunks hmac decode decrypt access_key_b64 codec_hint exp_req client_nonce
      first msgs = (ev, e) \<and> Decrypt nonce data a \<in> set ev"
  obtain ev1 e1 where loop: "iter_loop decrypt s 0 msgs = (ev1, e1)"
    by (cases "iter_loop decrypt s 0 msgs")
  with assms run have ev: "ev = ev0 @ ev1" by (simp add: iter_plain_chunks_def)
  have "Decrypt nonce data a \<notin> set ev0"
    using assms
    by (auto simp: iter_handshake_def Let_def split: sum.splits first_msg.splits if_splits)
  with run ev have "Decrypt nonce data a \<in> set ev1" by simp
  from iter_loop_accepts [OF loop this] show "\<exists>c. be_u64 (take 8 (drop 4 nonce)) = Inr c \<and> 1 \<le> c"
    by auto
qed

theorem counter_zero_rejected_witness:
  "iter_plain_chunks sample_mac b64decode accept_all ''AAAA'' ''h264'' 100 (replicate 16 0)
     (FirstJson (sample_hello 200)) [Binary (sample_frame 0 [7])] =
     ([Log Warning ''server exp mismatch: 200 != 100''],
      RuntimeError ''counter not increasing (0 <= 0)'')
   \<and> (\<exists>c. be_u64 (take 8 (drop 4 (sample_nonce 5))) = Inr c \<and> 1 \<le> c)"
proof -
  note inst = counter_zero_rejected [OF sample_iter_handshake_session]
  have frame: "28 \<le> length (sample_frame 0 [7]) \<and> take 4 (sample_frame 0 [7]) = conn_id sample_session
      \<and> be_u64 (take 8 (drop 4 (sample_frame 0 [7]))) = Inr 0"
    by (simp add: sample_frame_def sample_nonce_def sample_session_def be_u64_def)
  have run: "iter_plain_chunks sample_mac b64decode accept_all ''AAAA'' ''h264'' 100 (replicate 16 0)
      (FirstJson (sample_hello 200)) [Binary (sample_frame 5 [7])] =
      ([Log Warning ''server exp mismatch: 200 != 100'',
        Decrypt (sample_nonce 5) ([7] @ replicate 16 0) (aad sample_session), Yield [7]],
       ConnectionClosed)"
    by (simp add: iter_plain_chunks_def sample_iter_handshake_session iter_step_sample)
  from inst [of "sample_frame 0 [7]" accept_all "[]"] frame
  have 1: "iter_plain_chunks sample_mac b64decode accept_all ''AAAA'' ''h264'' 100 (replicate 16 0)
     (FirstJson (sample_hello 200)) [Binary (sample_frame 0 [7])] =
     ([Log Warning ''server exp mismatch: 200 != 100''],
      RuntimeError ''counter not increasing (0 <= 0)'')"
    by blast
  from inst [of _ accept_all "[Binary (sample_frame 5 [7])]"] run
  have 2: "\<exists>c. be_u64 (take 8 (drop 4 (sample_nonce 5))) = Inr c \<and> 1 \<le> c"
    by (metis list.set_intros(1,2))
  from 1 2 show ?thesis by simp
qed

text \<open>
  C2. The loop of \<^verbatim>\<open>get_chunks\<close> in \<^verbatim>\<open>tinycam.py\<close> decodes the counter and never
  compares it: frames with the counters 5 and 3, in that order, are both decrypted
  and yielded. The loop of \<^verbatim>\<open>iter_plain_chunks\<close> in \<^verbatim>\<open>stream_downloader.py\<close>, fed the
  same frames, yields the first and raises the ordering error at the second, and
  accepts the counters 5 and 6.
\<close>

theorem replay_check_missing_in_get_chunks:
  "get_chunks_loop accept_all sample_session 60 \<lparr>last_rx_ts = 0, first_bin_seen = False\<rparr>
     [(1, Binary (sample_frame 5 [7])), (2, Binary (sample_frame 3 [8]))] =
     ([Decrypt (sample_nonce 5) ([7] @ replicate 16 0) (aad sample_session), Yield [7],
       Decrypt (sample_nonce 3) ([8] @ replicate 16 0) (aad sample_session), Yield [8]],
      ConnectionClosed)
   \<and> iter_loop accept_all sample_session 0
       [Binary (sample_frame 5 [7]), Binary (sample_frame 3 [8])] =
     ([Decrypt (sample_nonce 5) ([7] @ replicate 16 0) (aad sample_session), Yield [7]],
      RuntimeError ''counter not increasing (3 <= 5)'')
   \<and> iter_loop accept_all sample_session 0
       [Binary (sample_frame 5 [7]), Binary (sample_frame 6 [8])] =
     ([Decrypt (sample_nonce 5) ([7] @ replicate 16 0) (aad sample_session), Yield [7],
       Decrypt (sample_nonce 6) ([8] @ replicate 16 0) (aad sample_session), Yield [8]],
      ConnectionClosed)"
  by (simp add: iter_step_sample get_chunks_step_sample str_nat_digits)

section \<open>Properties of the reconnect loop\<close>

lemma backoff_shift:
  fixes b p :: real
  assumes "0 \<le> b" "1 \<le> p"
  shows "min (min (b * 2) 10 * p) 10 = min (b * (2 * p)) 10"
proof (cases "b * 2 \<le> 10")
  case True
  then have "min (b * 2) 10 = b * 2" by simp
  then show ?thesis by (simp only: mult.assoc)
next
  case False
  then have m: "min (b * 2) 10 = 10" by simp
  have "10 \<le> 10 * p" using assms(2) by simp
  then have l: "min (10 * p) 10 = 10" by simp
  have "b * 1 \<le> b * p" by (rule mult_left_mono [OF assms(2) assms(1)])
  then have bp: "b \<le> b * p" by simp
  have "b * (2 * p) = 2 * (b * p)" by simp
  with bp False have "10 < b * (2 * p)" by linarith
  then have r: "min (b * (2 * p)) 10 = 10" by simp
  show ?thesis by (simp only: m l r)
qed

lemma main_loop_Cons:
  "main_loop b (a # as) =
     (let b1 = (case ended a of Returned \<Rightarrow> 1 | Raised e \<Rightarrow> b)
      in (min b1 10 # fst (main_loop (min (b1 * 2) 10) as), snd (main_loop (min (b1 * 2) 10) as)))"
  by (simp add: Let_def split_beta)

lemma main_loop_raised:
  "\<forall>a\<in>set as. ended a \<noteq> Returned \<Longrightarrow> 0 \<le> b \<Longrightarrow>
   fst (main_loop b as) = map (\<lambda>i. min (b * 2 ^ i) 10) [0..<length as]"
proof (induction as arbitrary: b)
  case Nil
  show ?case by simp
next
  case (Cons a as)
  then obtain e where a: "ended a = Raised e" by (cases "ended a") auto
  have b': "0 \<le> min (b * 2) 10" using Cons.prems(2) by simp
  have IH: "fst (main_loop (min (b * 2) 10) as) =
      map (\<lambda>i. min (min (b * 2) 10 * 2 ^ i) 10) [0..<length as]"
    using Cons.prems(1) by (intro Cons.IH [OF _ b']) simp
  have shift: "min (min (b * 2) 10 * 2 ^ i) 10 = min (b * 2 ^ Suc i) 10" for i :: nat
    using backoff_shift [OF Cons.prems(2), of "2 ^ i"] by simp
  have upt: "[0..<length (a # as)] = 0 # map Suc [0..<length as]"
    by (simp only: length_Cons upt_conv_Cons [OF zero_less_Suc] map_Suc_upt)
  have "fst (main_loop b (a # as)) = min b 10 # fst (main_loop (min (b * 2) 10) as)"
    by (simp only: main_loop_Cons a Let_def attempt_end.case fst_conv)
  also have "\<dots> = min (b * 2 ^ 0) 10 # map (\<lambda>i. min (b * 2 ^ Suc i) 10) [0..<length as]"
    by (simp only: IH shift) simp
  also have "\<dots> = map (\<lambda>i. min (b * 2 ^ i) 10) [0..<length (a # as)]"
    by (simp only: upt list.map map_map o_def)
  finally show ?case .
qed

declare main_loop.simps(2) [simp del]

lemma main_loop_chunks:
  "map ended as = map ended bs \<Longrightarrow> main_loop b as = main_loop b bs"
proof (induction as arbitrary: b bs)
  case Nil
  then show ?case by simp
next
  case (Cons a as)
  then obtain a' bs' where bs: "bs = a' # bs'" and e: "ended a = ended a'"
    and rest: "map ended as = map ended bs'" by (cases bs) auto
  from Cons.IH [OF rest] show ?case by (simp add: bs e main_loop_Cons)
qed

lemma main_loop_bounds:
  "1 \<le> b \<Longrightarrow> \<forall>x\<in>set (fst (main_loop b as)). 1 \<le> x \<and> x \<le> 10"
proof (induction as arbitrary: b)
  case Nil
  show ?case by simp
next
  case (Cons a as)
  let ?b1 = "case ended a of Returned \<Rightarrow> 1 | Raised e \<Rightarrow> b"
  have b1: "1 \<le> ?b1" using Cons.prems by (cases "ended a") simp_all
  then have "1 \<le> min (?b1 * 2) 10" by simp
  from Cons.IH [OF this] b1 show ?case by (simp add: main_loop_Cons Let_def)
qed

lemma main_async_raised:
  "\<forall>a\<in>set as. ended a \<noteq> Returned \<Longrightarrow>
   fst (main_async as) = map (\<lambda>i. min (2 ^ i) 10) [0..<length as]"
  using main_loop_raised [of as 1] by (simp add: main_async_def)

lemma main_async_bounds: "\<forall>x\<in>set (fst (main_async as)). 1 \<le> x \<and> x \<le> 10"
  using main_loop_bounds [of 1 as] by (simp add: main_async_def)

lemma main_async_chunks: "map ended as = map ended bs \<Longrightarrow> main_async as = main_async bs"
  unfolding main_async_def by (rule main_loop_chunks)

text \<open>Every attempt ends with the exception that ended its connection.\<close>

lemma stream_to_file_raises: "ended (stream_to_file run) = Raised (snd run)"
  by (cases run) (simp add: stream_to_file_def)

lemma main_async_streams:
  "fst (main_async (map stream_to_file runs)) = map (\<lambda>i. min (2 ^ i) 10) [0..<length runs]"
  using main_async_raised [of "map stream_to_file runs"]
  by (simp add: stream_to_file_raises)

lemma sample_run_timeout:
  "get_chunks sample_mac b64decode accept_all ''AAAA'' ''h264'' 60 100 (replicate 16 0) None 0 [] =
     ([], RuntimeError ''hello timeout'')"
  by (simp add: get_chunks_def get_chunks_handshake_def decode_access_key)

lemma sample_run_progress:
  "get_chunks sample_mac b64decode accept_all ''AAAA'' ''h264'' 60 100 (replicate 16 0)
     (Some (FirstJson (sample_hello 200))) 0 [(1, Binary (sample_frame 5 [7]))] =
     ([Log Warning ''server exp mismatch: 200 != 100'', SendStart ''AAAAAA=='' 200,
       Log Info ''[start] sent'',
       Decrypt (sample_nonce 5) ([7] @ replicate 16 0) (aad sample_session), Yield [7]],
      ConnectionClosed)"
proof -
  have hs: "get_chunks_handshake sample_mac b64decode ''AAAA'' ''h264'' 100 (replicate 16 0)
     (Some (FirstJson (sample_hello 200))) =
     ([Log Warning ''server exp mismatch: 200 != 100'', SendStart ''AAAAAA=='' 200,
       Log Info ''[start] sent''], Inr sample_session)"
    by (simp add: sample_get_chunks_handshake sample_session_def)
  show ?thesis
    by (simp add: get_chunks_def hs get_chunks_step_sample)
qed

text \<open>
  C5. The loop sleeps \<open>min(backoff, 10)\<close> seconds after every attempt, with \<open>backoff\<close>
  starting at 1, doubling after each attempt and capped at 10. Its only reset,
  \<open>backoff = 1.0\<close>, follows the awaited \<^verbatim>\<open>stream_to_file\<close> inside the \<^verbatim>\<open>try\<close>, and
  \<^verbatim>\<open>stream_to_file\<close> never returns, so the reset is never performed: whatever the
  attempts are, the sleeps are 1, 2, 4, 8, 10, 10, ... On the sample connection a first
  attempt times out waiting for the hello, a second one decrypts and writes a chunk
  before its connection closes, and the loop sleeps 1 and then 2 seconds and leaves
  \<open>backoff\<close> at 4, where an attempt that decrypted a frame should have set it back
  to 1.
\<close>

theorem backoff_not_reset_after_progress:
  "fst (main_async (map stream_to_file runs)) = map (\<lambda>i. min (2 ^ i) 10) [0..<length runs]
   \<and> chunks (stream_to_file
        (get_chunks sample_mac b64decode accept_all ''AAAA'' ''h264'' 60 100 (replicate 16 0)
           (Some (FirstJson (sample_hello 200))) 0 [(1, Binary (sample_frame 5 [7]))])) = [[7]]
   \<and> main_async
       [stream_to_file
          (get_chunks sample_mac b64decode accept_all ''AAAA'' ''h264'' 60 100 (replicate 16 0)
             None 0 []),
        stream_to_file
          (get_chunks sample_mac b64decode accept_all ''AAAA'' ''h264'' 60 100 (replicate 16 0)
             (Some (FirstJson (sample_hello 200))) 0 [(1, Binary (sample_frame 5 [7]))])]
       = ([1, 2], 4)"
proof (intro conjI)
  show "fst (main_async (map stream_to_file runs)) = map (\<lambda>i. min (2 ^ i) 10) [0..<length runs]"
    by (rule main_async_streams)
  show "chunks (stream_to_file
        (get_chunks sample_mac b64decode accept_all ''AAAA'' ''h264'' 60 100 (replicate 16 0)
           (Some (FirstJson (sample_hello 200))) 0 [(1, Binary (sample_frame 5 [7]))])) = [[7]]"
    by (simp add: sample_run_progress stream_to_file_def)
  show "main_async
       [stream_to_file
          (get_chunks sample_mac b64decode accept_all ''AAAA'' ''h264'' 60 100 (replicate 16 0)
             None 0 []),
        stream_to_file
          (get_chunks sample_mac b64decode accept_all ''AAAA'' ''h264'' 60 100 (replicate 16 0)
             (Some (FirstJson (sample_hello 200))) 0 [(1, Binary (sample_frame 5 [7]))])]
       = ([1, 2], 4)"
    by (simp add: sample_run_timeout sample_run_progress stream_to_file_def main_async_def
          main_loop_Cons)
qed


end
